theory Spec2Isabelle
  imports Complex_Main
begin

section \<open>Hotel price tracking: a shallow embedding\<close>

text \<open>
  The development follows the server modules of the repository: the data processor
  (price normalisation and the price-history write), the alert helper of
  \<^verbatim>\<open>db-helpers.ts\<close>, the session manager, the sync monitor and the scheduler's
  \<^verbatim>\<open>runSync\<close>.

  Conventions. Prices, counters and millisecond clock values are integers (\<open>int\<close> or
  \<open>nat\<close>), which doubles hold exactly below \<open>2 ^ 53\<close>. A quotient or product that
  JavaScript computes in a double is the exact rational result rounded by \<open>fl\<close> below. A
  thrown exception is a value: functions that may throw return a sum whose left side is what
  was thrown. Each \<^verbatim>\<open>Date.now()\<close> or \<^verbatim>\<open>new Date()\<close> is a clock reading passed
  as an argument.
\<close>

subsection \<open>JavaScript primitives\<close>

text \<open>
  The value of a double is a rational number. \<open>fl x\<close> is the double nearest to the exact
  result \<open>x\<close> of an operation: \<open>x\<close> is scaled by a power of two so that it lies between
  \<open>2 ^ 52\<close> and \<open>2 ^ 53\<close>, rounded there to the nearest integer, a tie going to the even
  one, and scaled back. \<open>bits n\<close> is the number of binary digits of \<open>n\<close> and
  \<open>ilog2 x\<close> the exponent of the greatest power of two not above \<open>x > 0\<close>. Overflow
  to infinity and the subnormal range are not modelled.
\<close>

function bits :: "int \<Rightarrow> int" where
  "bits n = (if n \<le> 0 then 0 else 1 + bits (n div 2))"
  by pat_completeness auto
termination
  by (relation "measure nat") auto

declare bits.simps [simp del]

definition ilog2 :: "rat \<Rightarrow> int" where
  "ilog2 x = (if 1 \<le> x then bits \<lfloor>x\<rfloor> - 1 else - bits (\<lceil>1 / x\<rceil> - 1))"

definition round_even :: "rat \<Rightarrow> int" where
  "round_even s =
    (let f = \<lfloor>s\<rfloor>; r = s - of_int f
     in if r < 1 / 2 then f
        else if 1 / 2 < r then f + 1
        else if even f then f else f + 1)"

definition fl :: "rat \<Rightarrow> rat" where
  "fl x =
    (if x = 0 then 0
     else (let e = ilog2 \<bar>x\<bar> - 52;
               m = round_even (\<bar>x\<bar> / 2 powi e)
           in sgn x * of_int m * 2 powi e))"

text \<open>
  \<^verbatim>\<open>Math.round\<close>: the nearest integer, a tie going towards plus infinity. It is exact
  on the value of its argument.
\<close>

definition js_round :: "rat \<Rightarrow> int" where
  "js_round x = \<lfloor>x + 1 / 2\<rfloor>"

text \<open>What a \<^verbatim>\<open>throw\<close> carries: an \<^verbatim>\<open>Error\<close> with its message, or any other value.\<close>

datatype thrown = Error string | NonError

subsection \<open>The database\<close>

text \<open>
  Tables are lists of rows in insertion order. Only the columns the modelled functions read
  or write are kept; an auto-increment primary key is a counter stored beside the table.
\<close>

datatype sync_status = Idle | Syncing | StatusError | StatusSuccess

datatype log_status = Pending | Running | Completed | Failed

datatype alert_type = price_lower | price_higher | price_equal

record priceHistoryRow =
  ph_hotelId :: nat
  ph_date :: "nat \<times> nat \<times> nat"
  ph_displayPrice :: "int option"
  ph_actualPrice :: "int option"
  ph_currency :: string
  ph_available :: nat

record webbedCredential =
  wc_userId :: nat
  wc_username :: string
  wc_password :: string
  wc_lastSyncAt :: "int option"
  wc_syncStatus :: sync_status
  wc_syncError :: "string option"

record syncLog =
  sl_id :: nat
  sl_userId :: nat
  sl_status :: log_status
  sl_totalHotels :: nat
  sl_totalDates :: nat
  sl_successCount :: nat
  sl_errorCount :: nat
  sl_errorMessage :: "string option"
  sl_startedAt :: int
  sl_completedAt :: "int option"
  sl_duration :: "int option"

record priceAlert =
  pa_id :: nat
  pa_userId :: nat
  pa_hotelId :: nat
  pa_date :: string
  pa_userPrice :: int
  pa_competitorPrice :: int
  pa_priceDifference :: int
  pa_alertType :: alert_type
  pa_isActive :: nat
  pa_createdAt :: int
  pa_dismissedAt :: "int option"

record database =
  priceHistory :: "priceHistoryRow list"
  webbedCredentials :: "webbedCredential list"
  syncLogs :: "syncLog list"
  syncLogs_autoinc :: nat
  priceAlerts :: "priceAlert list"
  priceAlerts_autoinc :: nat

subsection \<open>Data processor: price normalisation and the price-history write\<close>

text \<open>
  \<^verbatim>\<open>Math.round((displayPrice / 1.04998) * 100) / 100\<close>. The literal is the double
  nearest to 1.04998; the quotient, the product and the final quotient are each rounded to
  a double.
\<close>

definition calculateActualPrice :: "rat \<Rightarrow> rat" where
  "calculateActualPrice displayPrice =
     fl (of_int (js_round (fl (fl (displayPrice / fl (104998 / 100000)) * 100))) / 100)"

text \<open>
  An ISO date \<^verbatim>\<open>YYYY-MM-DD\<close> is the triple (year, month, day) and a portal date
  \<^verbatim>\<open>DD/MM/YYYY\<close> the triple (day, month, year); \<^verbatim>\<open>formatDateToISO\<close> reorders
  the parts.
\<close>

definition formatDateToISO :: "nat \<times> nat \<times> nat \<Rightarrow> nat \<times> nat \<times> nat" where
  "formatDateToISO dateStr = (case dateStr of (day, month, year) \<Rightarrow> (year, month, day))"

text \<open>
  The row \<^verbatim>\<open>priceData\<close> that \<^verbatim>\<open>savePriceHistory\<close> builds. The display price comes
  from \<^verbatim>\<open>parseInt\<close>, so it is an integer (below \<open>2 ^ 53\<close>, as a double holds it) or
  null; a NaN from unparsable text is not modelled. Both conditionals test truthiness: null
  and zero take the null branch.
\<close>

definition priceData ::
  "nat \<Rightarrow> nat \<times> nat \<times> nat \<Rightarrow> int option \<Rightarrow> bool \<Rightarrow> priceHistoryRow" where
  "priceData hotelId date displayPrice available =
    (let actualPrice =
           (case displayPrice of
              None \<Rightarrow> None
            | Some d \<Rightarrow> if d = 0 then None else Some (calculateActualPrice (of_int d)))
     in \<lparr> ph_hotelId = hotelId,
          ph_date = date,
          ph_displayPrice = displayPrice,
          ph_actualPrice =
            (case actualPrice of
               None \<Rightarrow> None
             | Some a \<Rightarrow> if a = 0 then None else Some (js_round a)),
          ph_currency = ''SAR'',
          ph_available = (if available then 1 else 0) \<rparr>)"

text \<open>
  \<^verbatim>\<open>savePriceHistory\<close>: throws when \<^verbatim>\<open>getDb()\<close> yields no database, otherwise
  appends the row.
\<close>

definition savePriceHistory ::
  "database option \<Rightarrow> nat \<Rightarrow> nat \<times> nat \<times> nat \<Rightarrow> int option \<Rightarrow> bool
     \<Rightarrow> thrown + database" where
  "savePriceHistory dbo hotelId date displayPrice available =
    (case dbo of
       None \<Rightarrow> Inl (Error ''Database not available'')
     | Some db \<Rightarrow>
         Inr (db\<lparr> priceHistory :=
                    priceHistory db @ [priceData hotelId date displayPrice available] \<rparr>))"

subsection \<open>Alerts (\<^verbatim>\<open>db-helpers.ts\<close>)\<close>

text \<open>
  \<^verbatim>\<open>createPriceAlert\<close>. The select with \<^verbatim>\<open>limit(1)\<close> takes the first matching row
  in table order; the update addresses rows by the id of that row; the insert leaves
  \<^verbatim>\<open>isActive\<close> to its column default 1 and \<^verbatim>\<open>dismissedAt\<close> null, and takes the
  next auto-increment id. The clock reading \<open>now\<close> is the \<^verbatim>\<open>new Date()\<close> of the
  update, and stands for the column default \<^verbatim>\<open>now()\<close> on insert.
\<close>

definition createPriceAlert ::
  "database option \<Rightarrow> int \<Rightarrow> nat \<Rightarrow> nat \<Rightarrow> string \<Rightarrow> int \<Rightarrow> int \<Rightarrow> thrown + database" where
  "createPriceAlert dbo now userId hotelId date userPrice competitorPrice =
    (case dbo of
       None \<Rightarrow> Inl (Error ''Database not available'')
     | Some db \<Rightarrow>
        (let priceDifference = competitorPrice - userPrice;
             alertType = (if priceDifference < 0 then price_lower
                          else if priceDifference > 0 then price_higher
                          else price_equal)
         in if alertType = price_lower then
              (case find (\<lambda>a. pa_userId a = userId \<and> pa_hotelId a = hotelId \<and>
                                pa_date a = date \<and> pa_isActive a = 1) (priceAlerts db) of
                 Some existing \<Rightarrow>
                   Inr (db\<lparr> priceAlerts :=
                          map (\<lambda>a. if pa_id a = pa_id existing
                                    then a\<lparr> pa_competitorPrice := competitorPrice,
                                            pa_priceDifference := priceDifference,
                                            pa_alertType := alertType,
                                            pa_createdAt := now \<rparr>
                                    else a) (priceAlerts db) \<rparr>)
               | None \<Rightarrow>
                   Inr (db\<lparr> priceAlerts :=
                          priceAlerts db @
                            [\<lparr> pa_id = priceAlerts_autoinc db,
                               pa_userId = userId,
                               pa_hotelId = hotelId,
                               pa_date = date,
                               pa_userPrice = userPrice,
                               pa_competitorPrice = competitorPrice,
                               pa_priceDifference = priceDifference,
                               pa_alertType = alertType,
                               pa_isActive = 1,
                               pa_createdAt = now,
                               pa_dismissedAt = None \<rparr>],
                        priceAlerts_autoinc := Suc (priceAlerts_autoinc db) \<rparr>))
            else Inr db))"

text \<open>
  The active alerts of a key, and the primary-key discipline of the table: ids are
  distinct and below the auto-increment counter.
\<close>

definition active_for :: "nat \<Rightarrow> nat \<Rightarrow> string \<Rightarrow> priceAlert list \<Rightarrow> priceAlert list" where
  "active_for userId hotelId date rows =
     filter (\<lambda>a. pa_userId a = userId \<and> pa_hotelId a = hotelId \<and> pa_date a = date \<and>
                  pa_isActive a = 1) rows"

definition alerts_keyed :: "database \<Rightarrow> bool" where
  "alerts_keyed db \<longleftrightarrow>
     distinct (map pa_id (priceAlerts db)) \<and>
     list_all (\<lambda>a. pa_id a < priceAlerts_autoinc db) (priceAlerts db)"

subsection \<open>Session manager\<close>

text \<open>
  A session file holds JSON text. \<^verbatim>\<open>JSON.parse(text) as SessionData\<close> checks nothing,
  so the text is either one on which parsing (or the first property access on the parsed
  value, when that value is \<^verbatim>\<open>null\<close>) throws, or one that yields an object whose
  fields may be missing or hold any JSON value. A field is \<open>None\<close> when it is missing
  (\<^verbatim>\<open>undefined\<close>). A value that is present is \<^verbatim>\<open>null\<close>, a boolean, a number,
  or a string, array or object; of the last three only the number that JavaScript converts
  them to matters here (none when the conversion gives NaN), and that is what \<open>JOther\<close>
  carries. A number is the value of the parsed double. The \<^verbatim>\<open>cookies\<close> field is
  missing or falsy (\<open>CookiesAbsent\<close>), present but not an array, or an array. Two kinds
  of text are left out: one that yields a bare number, string or boolean instead of an
  object, and one with a number literal too large for a double. Neither
  \<^verbatim>\<open>saveSession\<close> nor \<^verbatim>\<open>uploadSession\<close> writes the first kind.
\<close>

record cookie =
  c_name :: string
  c_value :: string
  c_domain :: string
  c_path :: string

datatype cookies_field = CookiesAbsent | CookiesNotArray | CookiesArray "cookie list"

datatype json_value = JNull | JBool bool | JNum rat | JOther "rat option"

record SessionData =
  cookies :: cookies_field
  localStorage :: "(string \<times> string) list option"
  sessionStorage :: "(string \<times> string) list option"
  timestamp :: "json_value option"
  expiresAt :: "json_value option"

datatype json_text = Unparsable | Parses SessionData

text \<open>
  The session directory: whether it exists, and the file of each user id.
\<close>

record session_dir =
  dir_exists :: bool
  files :: "string \<Rightarrow> json_text option"

text \<open>
  \<^verbatim>\<open>ToNumber\<close>, which the comparison and the subtraction apply to their operand:
  \<^verbatim>\<open>undefined\<close> gives NaN (here \<open>None\<close>), \<^verbatim>\<open>null\<close> gives 0, a boolean 0 or 1.
\<close>

definition toNumber :: "json_value option \<Rightarrow> rat option" where
  "toNumber v =
    (case v of
       None \<Rightarrow> None
     | Some JNull \<Rightarrow> Some 0
     | Some (JBool b) \<Rightarrow> Some (if b then 1 else 0)
     | Some (JNum n) \<Rightarrow> Some n
     | Some (JOther n) \<Rightarrow> n)"

text \<open>\<^verbatim>\<open>Date.now() > x\<close>: a comparison with NaN is false.\<close>

definition now_gt :: "int \<Rightarrow> json_value option \<Rightarrow> bool" where
  "now_gt now x = (case toNumber x of None \<Rightarrow> False | Some v \<Rightarrow> of_int now > v)"

definition ensureSessionDir :: "session_dir \<Rightarrow> session_dir" where
  "ensureSessionDir fs = (if \<not> dir_exists fs then fs\<lparr> dir_exists := True \<rparr> else fs)"

definition saveSession :: "session_dir \<Rightarrow> string \<Rightarrow> SessionData \<Rightarrow> session_dir" where
  "saveSession fs userId sessionData =
    (let fs1 = ensureSessionDir fs
     in fs1\<lparr> files := (files fs1)(userId \<mapsto> Parses sessionData) \<rparr>)"

definition deleteSession :: "session_dir \<Rightarrow> string \<Rightarrow> session_dir" where
  "deleteSession fs userId =
    (let fs1 = ensureSessionDir fs
     in if files fs1 userId \<noteq> None
        then fs1\<lparr> files := (files fs1)(userId := None) \<rparr>
        else fs1)"

text \<open>
  \<^verbatim>\<open>loadSession\<close> returns the session (or null) and leaves the directory in a new
  state. The \<^verbatim>\<open>catch\<close> branch only logs and returns null.
\<close>

definition loadSession :: "int \<Rightarrow> session_dir \<Rightarrow> string \<Rightarrow> SessionData option \<times> session_dir" where
  "loadSession now fs userId =
    (let fs1 = ensureSessionDir fs
     in case files fs1 userId of
          None \<Rightarrow> (None, fs1)
        | Some Unparsable \<Rightarrow> (None, fs1)
        | Some (Parses session) \<Rightarrow>
            if now_gt now (expiresAt session)
            then (None, deleteSession fs1 userId)
            else (Some session, fs1))"

definition createSession ::
  "int \<Rightarrow> cookie list \<Rightarrow> (string \<times> string) list option \<Rightarrow> (string \<times> string) list option
     \<Rightarrow> SessionData" where
  "createSession now cks ls ss =
    (let fifteenDaysMs = 15 * 24 * 60 * 60 * 1000
     in \<lparr> cookies = CookiesArray cks,
          localStorage = ls,
          sessionStorage = ss,
          timestamp = Some (JNum (of_int now)),
          expiresAt = Some (JNum (of_int (now + fifteenDaysMs))) \<rparr>)"

text \<open>
  \<^verbatim>\<open>isSessionNeedingVerification\<close>: the difference and the quotient are doubles and
  \<^verbatim>\<open>Math.floor\<close> is exact. When \<^verbatim>\<open>timestamp\<close> is missing or converts to NaN the
  age is NaN and \<^verbatim>\<open>NaN >= 15\<close> is false. The clock is read once in
  \<^verbatim>\<open>loadSession\<close> and once more here; both reads are the instant \<open>now\<close>.
\<close>

definition isSessionNeedingVerification :: "int \<Rightarrow> session_dir \<Rightarrow> string \<Rightarrow> bool \<times> session_dir" where
  "isSessionNeedingVerification now fs userId =
    (case loadSession now fs userId of
       (None, fs1) \<Rightarrow> (True, fs1)
     | (Some session, fs1) \<Rightarrow>
         (case toNumber (timestamp session) of
            None \<Rightarrow> (False, fs1)
          | Some t \<Rightarrow>
              (let ageInDays = \<lfloor>fl (fl (of_int now - t) / (24 * 60 * 60 * 1000))\<rfloor>
               in (ageInDays \<ge> 15, fs1))))"

text \<open>
  \<^verbatim>\<open>uploadSession\<close>: every throw inside the \<^verbatim>\<open>try\<close> block ends in the
  \<^verbatim>\<open>catch\<close>, which returns false.
\<close>

definition uploadSession :: "int \<Rightarrow> session_dir \<Rightarrow> string \<Rightarrow> json_text \<Rightarrow> bool \<times> session_dir" where
  "uploadSession now fs userId jsonData =
    (case jsonData of
       Unparsable \<Rightarrow> (False, fs)
     | Parses sessionData \<Rightarrow>
        (case cookies sessionData of
           CookiesAbsent \<Rightarrow> (False, fs)
         | CookiesNotArray \<Rightarrow> (False, fs)
         | CookiesArray cks \<Rightarrow>
             if now_gt now (expiresAt sessionData)
             then (False, fs)
             else (True, saveSession fs userId sessionData)))"

subsection \<open>Sync monitor\<close>

record SyncStats =
  totalCycles :: nat
  successfulCycles :: nat
  failedCycles :: nat
  lastSyncTime :: "int option"
  lastSyncDuration :: "int option"
  startTime :: int
  averageCycleDuration :: rat
  totalItemsProcessed :: int

record SyncMonitor =
  stats :: SyncStats
  cycleDurations :: "int list"

text \<open>The field initialisers of the class, which \<^verbatim>\<open>reset\<close> assigns again.\<close>

definition reset :: "int \<Rightarrow> SyncMonitor" where
  "reset now =
    \<lparr> stats = \<lparr> totalCycles = 0, successfulCycles = 0, failedCycles = 0,
                lastSyncTime = None, lastSyncDuration = None, startTime = now,
                averageCycleDuration = 0, totalItemsProcessed = 0 \<rparr>,
      cycleDurations = [] \<rparr>"

text \<open>
  \<^verbatim>\<open>endCycle\<close>: \<^verbatim>\<open>push\<close> appends, \<^verbatim>\<open>shift\<close> drops the oldest entry, and the
  average is the sum of the window over its length, a double. The durations are integers,
  whose sum is exact.
\<close>

definition endCycle :: "int \<Rightarrow> SyncMonitor \<Rightarrow> int \<Rightarrow> bool \<Rightarrow> int \<Rightarrow> SyncMonitor" where
  "endCycle now m cycleStart succeeded itemsProcessed =
    (let duration = now - cycleStart;
         s0 = stats m;
         s1 = s0\<lparr> totalCycles := totalCycles s0 + 1,
                   lastSyncTime := Some now,
                   lastSyncDuration := Some duration,
                   totalItemsProcessed := totalItemsProcessed s0 + itemsProcessed \<rparr>;
         s2 = (if succeeded then s1\<lparr> successfulCycles := successfulCycles s1 + 1 \<rparr>
               else s1\<lparr> failedCycles := failedCycles s1 + 1 \<rparr>);
         pushed = cycleDurations m @ [duration];
         window = (if length pushed > 100 then tl pushed else pushed)
     in \<lparr> stats = s2\<lparr> averageCycleDuration :=
                          fl (of_int (sum_list window) / of_nat (length window)) \<rparr>,
          cycleDurations = window \<rparr>)"

text \<open>Decimal digits of a natural number, as \<^verbatim>\<open>toString\<close> prints them.\<close>

definition digit :: "nat \<Rightarrow> char" where
  "digit d = ''0123456789'' ! d"

function show_nat :: "nat \<Rightarrow> string" where
  "show_nat n = (if n < 10 then [digit n] else show_nat (n div 10) @ [digit (n mod 10)])"
  by pat_completeness auto
termination
  by (relation "measure id") auto

declare show_nat.simps [simp del]

text \<open>
  \<^verbatim>\<open>x.toFixed(2)\<close> for the value \<open>x\<close> of a double: the integer \<open>n\<close> nearest to
  \<open>100 |x|\<close> (the larger one on a tie), printed with two decimals, behind a minus sign
  when \<open>x\<close> is negative. The callers pass the double they computed, so what is rounded
  here is the value of that double, not the exact quotient.
\<close>

definition toFixed2 :: "rat \<Rightarrow> string" where
  "toFixed2 x =
    (let n = nat (js_round (\<bar>x\<bar> * 100));
         body = show_nat (n div 100) @ ''.'' @ [digit (n mod 100 div 10), digit (n mod 10)]
     in if x < 0 then ''-'' @ body else body)"

text \<open>
  The formatted statistics. The fields \<^verbatim>\<open>lastSyncTime\<close> (a locale-formatted date)
  and \<^verbatim>\<open>uptime\<close> are left out.
\<close>

record FormattedStats =
  f_totalCycles :: nat
  f_successfulCycles :: nat
  f_failedCycles :: nat
  f_successRate :: string
  f_lastSyncDuration :: "string option"
  f_averageCycleDuration :: string
  f_totalItemsProcessed :: int

definition getFormattedStats :: "SyncMonitor \<Rightarrow> FormattedStats" where
  "getFormattedStats m =
    (let s = stats m;
         successRate =
           (if totalCycles s > 0
            then toFixed2 (fl (fl (of_nat (successfulCycles s) / of_nat (totalCycles s)) * 100))
            else ''0'')
     in \<lparr> f_totalCycles = totalCycles s,
          f_successfulCycles = successfulCycles s,
          f_failedCycles = failedCycles s,
          f_successRate = successRate @ ''%'',
          f_lastSyncDuration =
            (case lastSyncDuration s of
               None \<Rightarrow> None
             | Some d \<Rightarrow> if d = 0 then None else Some (toFixed2 (fl (of_int d / 1000)) @ ''s'')),
          f_averageCycleDuration = toFixed2 (fl (averageCycleDuration s / 1000)) @ ''s'',
          f_totalItemsProcessed = totalItemsProcessed s \<rparr>)"

text \<open>A run of \<^verbatim>\<open>endCycle\<close> calls, each with its clock reading and arguments.\<close>

fun endCycles :: "SyncMonitor \<Rightarrow> (int \<times> int \<times> bool \<times> int) list \<Rightarrow> SyncMonitor" where
  "endCycles m [] = m"
| "endCycles m ((now, cycleStart, succeeded, itemsProcessed) # calls) =
     endCycles (endCycle now m cycleStart succeeded itemsProcessed) calls"

subsection \<open>Scheduler\<close>

record hotel =
  h_name :: string
  h_id :: string

definition HOTELS_TO_TRACK :: "hotel list" where
  "HOTELS_TO_TRACK =
    [ \<lparr> h_name = ''VOCO'', h_id = ''voco'' \<rparr>,
      \<lparr> h_name = ''ELAF AJYAD'', h_id = ''elaf-ajyad'' \<rparr>,
      \<lparr> h_name = ''Four Points'', h_id = ''four-points'' \<rparr>,
      \<lparr> h_name = ''Makkah al Aziziah'', h_id = ''makkah-al-aziziah'' \<rparr>,
      \<lparr> h_name = ''Novotel Thakher'', h_id = ''novotel-thakher'' \<rparr>,
      \<lparr> h_name = ''Razanah'', h_id = ''razanah'' \<rparr>,
      \<lparr> h_name = ''Elaf Bakkah'', h_id = ''elaf-bakkah'' \<rparr>,
      \<lparr> h_name = ''M Al Danah'', h_id = ''m-al-danah'' \<rparr>,
      \<lparr> h_name = ''Snaff in'', h_id = ''snaff-in'' \<rparr>,
      \<lparr> h_name = ''Tapestry Collection by Hilton'', h_id = ''tapestry-collection'' \<rparr>,
      \<lparr> h_name = ''Wrqan Azizyah'', h_id = ''wrqan-azizyah'' \<rparr>,
      \<lparr> h_name = ''ibis Makkah'', h_id = ''ibis-makkah'' \<rparr>,
      \<lparr> h_name = ''Rafahyah Al Azizyah'', h_id = ''rafahyah-al-azizyah'' \<rparr>,
      \<lparr> h_name = ''Diyar Al Khaledyah'', h_id = ''diyar-al-khaledyah'' \<rparr> ]"

text \<open>The tracked dates, each \<^verbatim>\<open>DD/MM/YYYY\<close> string as (day, month, year).\<close>

definition DATES_TO_TRACK :: "(nat \<times> nat \<times> nat) list" where
  "DATES_TO_TRACK =
    [ (16, 2, 2026), (17, 2, 2026), (18, 2, 2026), (19, 2, 2026), (20, 2, 2026),
      (21, 2, 2026), (22, 2, 2026), (23, 2, 2026), (24, 2, 2026), (25, 2, 2026),
      (26, 2, 2026), (27, 2, 2026), (28, 2, 2026), (1, 3, 2026), (2, 3, 2026),
      (3, 3, 2026), (4, 3, 2026), (5, 3, 2026), (6, 3, 2026), (7, 3, 2026) ]"

text \<open>
  The check-out date: \<^verbatim>\<open>setDate(getDate() + 1)\<close> on the check-in date, which is the
  next day of the calendar.
\<close>

definition days_in_month :: "nat \<Rightarrow> nat \<Rightarrow> nat" where
  "days_in_month year month =
    (if month = 2
     then (if year mod 4 = 0 \<and> (year mod 100 \<noteq> 0 \<or> year mod 400 = 0) then 29 else 28)
     else if month \<in> {4, 6, 9, 11} then 30 else 31)"

definition next_day :: "nat \<times> nat \<times> nat \<Rightarrow> nat \<times> nat \<times> nat" where
  "next_day dateStr =
    (case dateStr of (day, month, year) \<Rightarrow>
       if day < days_in_month year month then (day + 1, month, year)
       else if month < 12 then (1, month + 1, year)
       else (1, 1, year + 1))"

text \<open>
  What the run cannot decide by itself is given by an environment: the result of
  decrypting, of the scraper's \<^verbatim>\<open>initialize\<close>, \<^verbatim>\<open>login\<close> and \<^verbatim>\<open>close\<close>, and for
  every cell the results of \<^verbatim>\<open>getOrCreateHotel\<close> and \<^verbatim>\<open>searchHotelPrice\<close> and
  whether \<^verbatim>\<open>getDb()\<close> inside \<^verbatim>\<open>savePriceHistory\<close> yields the database. Each may
  throw. The statements that \<^verbatim>\<open>runSync\<close> itself sends to the database handle it has
  obtained are taken to succeed.
\<close>

record SearchResult =
  sr_price :: "int option"
  sr_available :: bool

record cell_events =
  ev_getOrCreateHotel :: "thrown + nat"
  ev_searchHotelPrice :: "thrown + SearchResult option"
  ev_getDb :: bool

record sync_env =
  env_decryptData :: "string \<Rightarrow> thrown + string"
  env_initialize :: "thrown option"
  env_login :: "string \<Rightarrow> string \<Rightarrow> thrown + bool"
  env_cell :: "hotel \<Rightarrow> nat \<times> nat \<times> nat \<Rightarrow> nat \<times> nat \<times> nat \<Rightarrow> cell_events"
  env_close :: "thrown option"
  env_startTime :: int
  env_startedAt :: int
  env_endTime :: int
  env_completedAt :: int
  env_lastSyncAt :: int

record SyncResult =
  success :: bool
  totalHotels :: nat
  totalDates :: nat
  successCount :: nat
  errorCount :: nat
  errorMessage :: "string option"

text \<open>The variables a run carries through the grid: the database and the two counters.\<close>

record run_state =
  rs_db :: database
  rs_successCount :: nat
  rs_errorCount :: nat

text \<open>The body of the inner loop, with its own \<^verbatim>\<open>try\<close>/\<^verbatim>\<open>catch\<close>.\<close>

definition sync_cell :: "sync_env \<Rightarrow> hotel \<Rightarrow> nat \<times> nat \<times> nat \<Rightarrow> run_state \<Rightarrow> run_state" where
  "sync_cell env h dateStr st =
    (let checkOutStr = next_day dateStr;
         ev = env_cell env h dateStr checkOutStr
     in case ev_getOrCreateHotel ev of
          Inl e \<Rightarrow> st\<lparr> rs_errorCount := Suc (rs_errorCount st) \<rparr>
        | Inr hotelId \<Rightarrow>
           (case ev_searchHotelPrice ev of
              Inl e \<Rightarrow> st\<lparr> rs_errorCount := Suc (rs_errorCount st) \<rparr>
            | Inr None \<Rightarrow> st\<lparr> rs_errorCount := Suc (rs_errorCount st) \<rparr>
            | Inr (Some result) \<Rightarrow>
               (case savePriceHistory (if ev_getDb ev then Some (rs_db st) else None)
                       hotelId (formatDateToISO dateStr) (sr_price result) (sr_available result) of
                  Inl e \<Rightarrow> st\<lparr> rs_errorCount := Suc (rs_errorCount st) \<rparr>
                | Inr db' \<Rightarrow> st\<lparr> rs_db := db',
                                  rs_successCount := Suc (rs_successCount st) \<rparr>)))"

text \<open>The two nested \<^verbatim>\<open>for\<close> loops: hotels outside, dates inside.\<close>

definition sync_grid ::
  "sync_env \<Rightarrow> hotel list \<Rightarrow> (nat \<times> nat \<times> nat) list \<Rightarrow> run_state \<Rightarrow> run_state" where
  "sync_grid env hs ds st = fold (\<lambda>h. fold (\<lambda>dateStr. sync_cell env h dateStr) ds) hs st"

definition error_message :: "thrown \<Rightarrow> string" where
  "error_message e = (case e of Error m \<Rightarrow> m | NonError \<Rightarrow> ''Unknown error'')"

text \<open>The outer \<^verbatim>\<open>catch\<close> block of \<^verbatim>\<open>runSync\<close>.\<close>

definition sync_catch :: "thrown \<Rightarrow> nat \<Rightarrow> run_state \<Rightarrow> SyncResult \<times> database" where
  "sync_catch e userId st =
    (let msg = error_message e;
         db = rs_db st
     in (\<lparr> success = False,
           totalHotels = length HOTELS_TO_TRACK,
           totalDates = length DATES_TO_TRACK,
           successCount = rs_successCount st,
           errorCount = rs_errorCount st,
           errorMessage = Some msg \<rparr>,
         db\<lparr> webbedCredentials :=
               map (\<lambda>c. if wc_userId c = userId
                         then c\<lparr> wc_syncStatus := StatusError, wc_syncError := Some msg \<rparr>
                         else c) (webbedCredentials db) \<rparr>))"

text \<open>
  The insert that creates the sync log: the row, and the id the database reports for it.
\<close>

definition insert_syncLog :: "sync_env \<Rightarrow> nat \<Rightarrow> database \<Rightarrow> nat \<times> database" where
  "insert_syncLog env userId db =
    (let insertId = syncLogs_autoinc db
     in (insertId,
         db\<lparr> syncLogs := syncLogs db @
                  [\<lparr> sl_id = insertId,
                     sl_userId = userId,
                     sl_status = Running,
                     sl_totalHotels = length HOTELS_TO_TRACK,
                     sl_totalDates = length DATES_TO_TRACK,
                     sl_successCount = 0,
                     sl_errorCount = 0,
                     sl_errorMessage = None,
                     sl_startedAt = env_startedAt env,
                     sl_completedAt = None,
                     sl_duration = None \<rparr>],
              syncLogs_autoinc := Suc insertId \<rparr>))"

text \<open>
  The end of the \<^verbatim>\<open>try\<close> block, after the scraper is closed: the sync log and the
  credentials are updated and the result is returned.
\<close>

definition sync_complete :: "sync_env \<Rightarrow> nat \<Rightarrow> nat \<Rightarrow> run_state \<Rightarrow> SyncResult \<times> database" where
  "sync_complete env userId syncLogId st =
    (let duration = js_round (fl (of_int (env_endTime env - env_startTime env) / 1000));
         db2 = rs_db st;
         db3 = db2\<lparr> syncLogs :=
                  map (\<lambda>l. if sl_id l = syncLogId
                            then l\<lparr> sl_status := Completed,
                                    sl_successCount := rs_successCount st,
                                    sl_errorCount := rs_errorCount st,
                                    sl_completedAt := Some (env_completedAt env),
                                    sl_duration := Some duration \<rparr>
                            else l) (syncLogs db2) \<rparr>;
         db4 = db3\<lparr> webbedCredentials :=
                  map (\<lambda>c. if wc_userId c = userId
                            then c\<lparr> wc_syncStatus := StatusSuccess,
                                    wc_lastSyncAt := Some (env_lastSyncAt env),
                                    wc_syncError := None \<rparr>
                            else c) (webbedCredentials db3) \<rparr>
     in (\<lparr> success = True,
           totalHotels = length HOTELS_TO_TRACK,
           totalDates = length DATES_TO_TRACK,
           successCount = rs_successCount st,
           errorCount = rs_errorCount st,
           errorMessage = None \<rparr>, db4))"

text \<open>
  \<^verbatim>\<open>runSync\<close> returns its result and the database as the run leaves it (none when
  \<^verbatim>\<open>getDb()\<close> gave none).
\<close>

definition runSync :: "sync_env \<Rightarrow> database option \<Rightarrow> nat \<Rightarrow> SyncResult \<times> database option" where
  "runSync env dbo userId =
    (case dbo of
       None \<Rightarrow>
         (\<lparr> success = False, totalHotels = 0, totalDates = 0, successCount = 0,
            errorCount = 0, errorMessage = Some ''Database not available'' \<rparr>, None)
     | Some db \<Rightarrow>
        (case filter (\<lambda>c. wc_userId c = userId) (webbedCredentials db) of
           [] \<Rightarrow>
             (\<lparr> success = False, totalHotels = 0, totalDates = 0, successCount = 0,
                errorCount = 0, errorMessage = Some ''No credentials found'' \<rparr>, Some db)
         | cred # _ \<Rightarrow>
            map_prod id Some
             (case env_decryptData env (wc_password cred) of
                Inl e \<Rightarrow>
                  sync_catch e userId \<lparr> rs_db = db, rs_successCount = 0, rs_errorCount = 0 \<rparr>
              | Inr password \<Rightarrow>
                 (case insert_syncLog env userId db of
                    (insertId, db1) \<Rightarrow>
                     (let syncLogId = (if insertId = 0 then 1 else insertId);
                          st0 = \<lparr> rs_db = db1, rs_successCount = 0, rs_errorCount = 0 \<rparr>
                      in case env_initialize env of
                           Some e \<Rightarrow> sync_catch e userId st0
                         | None \<Rightarrow>
                            (case env_login env (wc_username cred) password of
                               Inl e \<Rightarrow> sync_catch e userId st0
                             | Inr loginSuccess \<Rightarrow>
                                if \<not> loginSuccess
                                then sync_catch (Error ''Login failed'') userId st0
                                else
                                 (let st1 = sync_grid env HOTELS_TO_TRACK DATES_TO_TRACK st0
                                  in case env_close env of
                                       Some e \<Rightarrow> sync_catch e userId st1
                                     | None \<Rightarrow> sync_complete env userId syncLogId st1)))))))"

subsection \<open>Concrete states for the examples\<close>

definition empty_db :: database where
  "empty_db =
    \<lparr> priceHistory = [], webbedCredentials = [], syncLogs = [], syncLogs_autoinc = 1,
      priceAlerts = [], priceAlerts_autoinc = 1 \<rparr>"

text \<open>A table holding one active alert of user 7 for hotel 9.\<close>

definition alert_db0 :: database where
  "alert_db0 =
    empty_db\<lparr> priceAlerts :=
                 [\<lparr> pa_id = 1, pa_userId = 7, pa_hotelId = 9, pa_date = ''2026-02-17'',
                    pa_userPrice = 300, pa_competitorPrice = 280, pa_priceDifference = - 20,
                    pa_alertType = price_lower, pa_isActive = 1, pa_createdAt = 500,
                    pa_dismissedAt = None \<rparr>],
               priceAlerts_autoinc := 2 \<rparr>"

text \<open>
  Session directories: one that does not exist yet, one whose file for the owner does not
  parse, and one holding a session created at time 0; a payload that has cookies and a
  timestamp but no \<^verbatim>\<open>expiresAt\<close>; and the payload \<^verbatim>\<open>{"cookies":[]}\<close>.
\<close>

definition empty_dir :: session_dir where
  "empty_dir = \<lparr> dir_exists = False, files = Map.empty \<rparr>"

definition unparsable_dir :: session_dir where
  "unparsable_dir = \<lparr> dir_exists = True, files = [''owner'' \<mapsto> Unparsable] \<rparr>"

definition payload_no_expiry :: SessionData where
  "payload_no_expiry =
    \<lparr> cookies = CookiesArray [\<lparr> c_name = ''sid'', c_value = ''abc'', c_domain = ''example.com'', c_path = ''/'' \<rparr>],
      localStorage = None, sessionStorage = None, timestamp = Some (JNum 1000),
      expiresAt = None \<rparr>"

definition payload_cookies_only :: SessionData where
  "payload_cookies_only =
    \<lparr> cookies = CookiesArray [], localStorage = None, sessionStorage = None,
      timestamp = None, expiresAt = None \<rparr>"

definition fresh_dir :: session_dir where
  "fresh_dir = saveSession empty_dir ''owner'' (createSession 0 [] None None)"

text \<open>
  Runs of \<^verbatim>\<open>endCycle\<close> calls (clock reading, cycle start, success, items), and the
  duration and the success flag of a call.
\<close>

definition four_cycles :: "(int \<times> int \<times> bool \<times> int) list" where
  "four_cycles = [(100, 0, True, 0), (250, 100, True, 0), (400, 250, True, 0), (600, 400, False, 0)]"

definition many_cycles :: "(int \<times> int \<times> bool \<times> int) list" where
  "many_cycles = replicate 50 (7, 0, False, 1) @ replicate 100 (100, 0, True, 1)"

definition one_cycle :: "(int \<times> int \<times> bool \<times> int) list" where
  "one_cycle = [(15, 0, True, 1)]"

definition rare_success :: "(int \<times> int \<times> bool \<times> int) list" where
  "rare_success = replicate 3 (1, 0, True, 1) @ replicate 3997 (1, 0, False, 1)"

definition duration_of :: "int \<times> int \<times> bool \<times> int \<Rightarrow> int" where
  "duration_of call = (case call of (now, cycleStart, succeeded, itemsProcessed) \<Rightarrow> now - cycleStart)"

definition succeeded_of :: "int \<times> int \<times> bool \<times> int \<Rightarrow> bool" where
  "succeeded_of call = (case call of (now, cycleStart, succeeded, itemsProcessed) \<Rightarrow> succeeded)"

text \<open>
  A cell whose three steps all succeed: the hotel lookup returns, the search returns a result
  that is not null, and the save finds the database.
\<close>

definition cell_ok :: "sync_env \<Rightarrow> hotel \<Rightarrow> nat \<times> nat \<times> nat \<Rightarrow> bool" where
  "cell_ok env h dateStr =
    (let ev = env_cell env h dateStr (next_day dateStr)
     in (case ev_getOrCreateHotel ev of
           Inl e \<Rightarrow> False
         | Inr hotelId \<Rightarrow>
            (case ev_searchHotelPrice ev of
               Inl e \<Rightarrow> False
             | Inr None \<Rightarrow> False
             | Inr (Some result) \<Rightarrow> ev_getDb ev)))"

text \<open>
  The primary key of the sync logs: ids are below the auto-increment counter, which starts
  at 1.
\<close>

definition logs_keyed :: "database \<Rightarrow> bool" where
  "logs_keyed db \<longleftrightarrow>
     0 < syncLogs_autoinc db \<and> list_all (\<lambda>l. sl_id l < syncLogs_autoinc db) (syncLogs db)"

text \<open>The numbers of saved and of failed cells in the tracked grid.\<close>

definition ok_cells :: "sync_env \<Rightarrow> nat" where
  "ok_cells env =
     length (filter (\<lambda>(h, d). cell_ok env h d) (List.product HOTELS_TO_TRACK DATES_TO_TRACK))"

definition failed_cells :: "sync_env \<Rightarrow> nat" where
  "failed_cells env =
     length (filter (\<lambda>(h, d). \<not> cell_ok env h d) (List.product HOTELS_TO_TRACK DATES_TO_TRACK))"

text \<open>
  A database with the credentials of user 7, and environments: one in which every step
  succeeds (hotel \<^verbatim>\<open>snaff-in\<close> is never matched), one with five failing cells, one
  whose login is refused, one whose searches all return null.
\<close>

definition sync_db0 :: database where
  "sync_db0 =
    empty_db\<lparr> webbedCredentials :=
                 [\<lparr> wc_userId = 7, wc_username = ''agent'', wc_password = ''U2FsdGVk'',
                    wc_lastSyncAt = None, wc_syncStatus = Idle, wc_syncError = None \<rparr>] \<rparr>"

definition env_all_ok :: sync_env where
  "env_all_ok =
    \<lparr> env_decryptData = (\<lambda>c. Inr ''secret''),
      env_initialize = None,
      env_login = (\<lambda>u p. Inr True),
      env_cell = (\<lambda>h d co.
         \<lparr> ev_getOrCreateHotel = Inr 1,
           ev_searchHotelPrice =
             Inr (Some (if h_id h = ''snaff-in''
                        then \<lparr> sr_price = None, sr_available = False \<rparr>
                        else \<lparr> sr_price = Some 210, sr_available = True \<rparr>)),
           ev_getDb = True \<rparr>),
      env_close = None,
      env_startTime = 1000, env_startedAt = 1001, env_endTime = 61400,
      env_completedAt = 61401, env_lastSyncAt = 61402 \<rparr>"

definition env_five_failures :: sync_env where
  "env_five_failures =
    env_all_ok\<lparr> env_cell := (\<lambda>h d co.
      if h_id h = ''voco'' \<and> (d = (16, 2, 2026) \<or> d = (17, 2, 2026))
      then \<lparr> ev_getOrCreateHotel = Inr 1, ev_searchHotelPrice = Inr None, ev_getDb = True \<rparr>
      else if h_id h = ''razanah'' \<and> d = (1, 3, 2026)
      then \<lparr> ev_getOrCreateHotel = Inr 1,
             ev_searchHotelPrice = Inl (Error ''Page not initialized''), ev_getDb = True \<rparr>
      else if h_id h = ''ibis-makkah'' \<and> d = (28, 2, 2026)
      then \<lparr> ev_getOrCreateHotel = Inl (Error ''Database not available''),
             ev_searchHotelPrice = Inr None, ev_getDb = True \<rparr>
      else if h_id h = ''elaf-ajyad'' \<and> d = (7, 3, 2026)
      then \<lparr> ev_getOrCreateHotel = Inr 1,
             ev_searchHotelPrice = Inr (Some \<lparr> sr_price = Some 210, sr_available = True \<rparr>),
             ev_getDb = False \<rparr>
      else env_cell env_all_ok h d co) \<rparr>"

definition env_login_fails :: sync_env where
  "env_login_fails = env_all_ok\<lparr> env_login := (\<lambda>u p. Inr False) \<rparr>"

definition env_search_none :: sync_env where
  "env_search_none =
    env_all_ok\<lparr> env_cell := (\<lambda>h d co.
      \<lparr> ev_getOrCreateHotel = Inr 1, ev_searchHotelPrice = Inr None, ev_getDb = True \<rparr>) \<rparr>"

section \<open>Arithmetic of doubles\<close>

text \<open>
  \<open>bits n\<close> is the length of the binary numeral of \<open>n\<close>, so \<open>ilog2 x\<close> is the exponent
  of the binade of a positive \<open>x\<close>. Rounding to a double moves a number by at most one part
  in \<open>2 ^ 53\<close>, and leaves every integer below \<open>2 ^ 53\<close>, and every half of one, as it is.
\<close>

lemma bits_nonneg: "0 \<le> bits n"
  by (induction n rule: bits.induct) (simp add: bits.simps)

lemma bits_bounds_int:
  "0 < n \<Longrightarrow> 0 < bits n \<and> 2 ^ nat (bits n - 1) \<le> n \<and> n < 2 ^ nat (bits n)"
proof (induction n rule: bits.induct)
  case (1 n)
  show ?case
  proof (cases "n = 1")
    case True
    have "bits 1 = 1" by (simp add: bits.simps)
    then show ?thesis using True by simp
  next
    case False
    with "1.prems" have m: "0 < n div 2" by simp
    from "1.IH" "1.prems" m
    have ih: "0 < bits (n div 2)" "2 ^ nat (bits (n div 2) - 1) \<le> n div 2"
      "n div 2 < 2 ^ nat (bits (n div 2))"
      by simp_all
    have b: "bits n = 1 + bits (n div 2)"
      using "1.prems" by (subst bits.simps) simp
    have e1: "nat (bits n - 1) = Suc (nat (bits (n div 2) - 1))"
      using ih(1) b by simp
    have e2: "nat (bits n) = Suc (nat (bits (n div 2)))"
      using ih(1) b by simp
    have "2 * (n div 2) \<le> n" "n \<le> 2 * (n div 2) + 1"
      by simp_all
    then show ?thesis
      using ih b unfolding e1 e2 by simp
  qed
qed

lemma bits_bounds:
  assumes "0 < n"
  shows "(2::rat) powi (bits n - 1) \<le> of_int n" and "of_int n < (2::rat) powi (bits n)"
proof -
  from bits_bounds_int[OF assms]
  have p: "0 < bits n" and lo: "2 ^ nat (bits n - 1) \<le> n" and hi: "n < 2 ^ nat (bits n)"
    by simp_all
  have "(2::rat) powi (bits n - 1) = of_int (2 ^ nat (bits n - 1))"
    using p by (simp add: power_int_def)
  also have "\<dots> \<le> of_int n"
    using lo by (simp only: of_int_le_iff)
  finally show "(2::rat) powi (bits n - 1) \<le> of_int n" .
  have "(of_int n :: rat) < of_int (2 ^ nat (bits n))"
    using hi by (simp only: of_int_less_iff)
  also have "\<dots> = (2::rat) powi (bits n)"
    using p by (simp add: power_int_def)
  finally show "of_int n < (2::rat) powi (bits n)" .
qed

lemma ilog2_bounds:
  assumes "0 < x"
  shows "2 powi ilog2 x \<le> x" and "x < 2 powi (ilog2 x + 1)"
proof -
  show "2 powi ilog2 x \<le> x"
  proof (cases "1 \<le> x")
    case True
    then have n: "0 < \<lfloor>x\<rfloor>" by simp
    have "2 powi ilog2 x = (2::rat) powi (bits \<lfloor>x\<rfloor> - 1)"
      using True by (simp add: ilog2_def)
    also have "\<dots> \<le> of_int \<lfloor>x\<rfloor>" by (rule bits_bounds(1)[OF n])
    also have "\<dots> \<le> x" by simp
    finally show ?thesis .
  next
    case False
    define k where "k = \<lceil>1 / x\<rceil> - 1"
    have y: "1 < 1 / x" using False assms by simp
    then have k: "0 < k" unfolding k_def by linarith
    have "1 / x \<le> of_int k + 1" unfolding k_def by simp
    also have "of_int k + 1 \<le> (2::rat) powi (bits k)"
    proof -
      from bits_bounds_int[OF k] have "k + 1 \<le> 2 ^ nat (bits k)" and "0 < bits k" by simp_all
      then have "(of_int (k + 1) :: rat) \<le> of_int (2 ^ nat (bits k))"
        by (simp only: of_int_le_iff)
      then show ?thesis using \<open>0 < bits k\<close> by (simp add: power_int_def)
    qed
    finally have "1 / x \<le> (2::rat) powi (bits k)" .
    then have "1 / 2 powi (bits k) \<le> x"
      using assms by (simp add: field_simps)
    moreover have "2 powi ilog2 x = (1::rat) / 2 powi (bits k)"
      using False by (simp add: ilog2_def k_def power_int_minus_divide)
    ultimately show ?thesis by simp
  qed
  show "x < 2 powi (ilog2 x + 1)"
  proof (cases "1 \<le> x")
    case True
    then have n: "0 < \<lfloor>x\<rfloor>" by simp
    from bits_bounds_int[OF n] have "\<lfloor>x\<rfloor> + 1 \<le> 2 ^ nat (bits \<lfloor>x\<rfloor>)" and p: "0 < bits \<lfloor>x\<rfloor>"
      by simp_all
    then have "(of_int (\<lfloor>x\<rfloor> + 1) :: rat) \<le> of_int (2 ^ nat (bits \<lfloor>x\<rfloor>))"
      by (simp only: of_int_le_iff)
    then have "of_int \<lfloor>x\<rfloor> + 1 \<le> (2::rat) powi (bits \<lfloor>x\<rfloor>)"
      using p by (simp add: power_int_def)
    moreover have "x < of_int \<lfloor>x\<rfloor> + 1" by linarith
    moreover have "ilog2 x + 1 = bits \<lfloor>x\<rfloor>" using True by (simp add: ilog2_def)
    ultimately show ?thesis by simp
  next
    case False
    define k where "k = \<lceil>1 / x\<rceil> - 1"
    have y: "1 < 1 / x" using False assms by simp
    then have k: "0 < k" unfolding k_def by linarith
    have "of_int k < 1 / x" unfolding k_def by linarith
    with bits_bounds(1)[OF k] have "(2::rat) powi (bits k - 1) < 1 / x" by simp
    moreover have "0 < (2::rat) powi (bits k - 1)" by simp
    ultimately have "x < 1 / 2 powi (bits k - 1)"
      using assms by (simp add: field_simps)
    moreover have "ilog2 x + 1 = - (bits k - 1)" using False by (simp add: ilog2_def k_def)
    ultimately show ?thesis by (simp only: power_int_minus_divide)
  qed
qed

lemma round_even_err: "\<bar>of_int (round_even s) - s\<bar> \<le> 1 / 2"
proof -
  define r where "r = s - of_int \<lfloor>s\<rfloor>"
  have r: "0 \<le> r" "r < 1" unfolding r_def by linarith+
  have s: "s = of_int \<lfloor>s\<rfloor> + r" by (simp add: r_def)
  consider "r < 1 / 2" | "1 / 2 < r" | "r = 1 / 2" by linarith
  then show ?thesis
  proof cases
    case 1
    then have "round_even s = \<lfloor>s\<rfloor>" by (simp add: round_even_def Let_def r_def)
    then show ?thesis using r 1 s by linarith
  next
    case 2
    then have "round_even s = \<lfloor>s\<rfloor> + 1" by (simp add: round_even_def Let_def r_def)
    then show ?thesis using r 2 s by linarith
  next
    case 3
    then have "round_even s = \<lfloor>s\<rfloor> \<or> round_even s = \<lfloor>s\<rfloor> + 1"
      by (simp add: round_even_def Let_def r_def)
    then show ?thesis using 3 s by linarith
  qed
qed

lemma round_even_int [simp]: "round_even (of_int n) = n"
  by (simp add: round_even_def)

lemma fl_error: "\<bar>fl x - x\<bar> \<le> \<bar>x\<bar> / 2 ^ 53"
proof (cases "x = 0")
  case True
  then show ?thesis by (simp add: fl_def)
next
  case False
  define a where "a = \<bar>x\<bar>"
  define e where "e = ilog2 a - 52"
  define s where "s = a / 2 powi e"
  define m where "m = round_even s"
  have a: "0 < a" using False by (simp add: a_def)
  have pe: "0 < (2::rat) powi e" by simp
  have flx: "fl x = sgn x * of_int m * 2 powi e"
    using False by (simp add: fl_def Let_def a_def e_def s_def m_def)
  have x: "x = sgn x * s * 2 powi e"
    by (simp add: s_def a_def mult_sgn_abs)
  have "fl x - x = sgn x * (of_int m - s) * 2 powi e"
    by (subst (2) x) (simp add: flx algebra_simps)
  then have "\<bar>fl x - x\<bar> = \<bar>of_int m - s\<bar> * 2 powi e"
    using False by (simp add: abs_mult abs_sgn_eq)
  also have "\<dots> \<le> 1 / 2 * 2 powi e"
    using round_even_err[of s] pe unfolding m_def by (intro mult_right_mono) simp_all
  also have "(2::rat) powi e = 2 powi ilog2 a / 2 ^ 52"
    unfolding e_def by (simp add: power_int_diff)
  also have "1 / 2 * (2 powi ilog2 a / 2 ^ 52) \<le> 1 / 2 * (a / 2 ^ 52)"
    using ilog2_bounds(1)[OF a] by (simp add: divide_right_mono)
  finally show ?thesis by (simp add: a_def)
qed


lemma fl_exact:
  assumes "\<bar>n\<bar> < 2 ^ 53"
  shows "fl (of_int n * 2 powi j) = of_int n * 2 powi j"
proof (cases "n = 0")
  case True
  then show ?thesis by (simp add: fl_def)
next
  case False
  define x :: rat where "x = of_int n * 2 powi j"
  define a where "a = \<bar>x\<bar>"
  define e where "e = ilog2 a - 52"
  have pj: "0 < (2::rat) powi j" by simp
  have xz: "x \<noteq> 0" using False by (simp add: x_def)
  have a_eq: "a = of_int \<bar>n\<bar> * 2 powi j"
    by (simp add: a_def x_def abs_mult)
  have a: "0 < a" using xz by (simp add: a_def)
  have "(of_int \<bar>n\<bar> :: rat) < of_int (2 ^ 53)"
    using assms by (simp only: of_int_less_iff)
  then have "a < 2 ^ 53 * 2 powi j"
    unfolding a_eq using pj by (intro mult_strict_right_mono) simp_all
  also have "\<dots> = (2::rat) powi (53 + j)"
    by (simp add: power_int_add)
  finally have "2 powi ilog2 a < (2::rat) powi (53 + j)"
    using ilog2_bounds(1)[OF a] by simp
  then have "ilog2 a < 53 + j"
    using power_int_increasing[of "53 + j" "ilog2 a" "2::rat"] by (cases "ilog2 a < 53 + j") auto
  then have ej: "e \<le> j" by (simp add: e_def)
  have "a / 2 powi e = of_int \<bar>n\<bar> * 2 powi (j - e)"
    by (simp add: a_eq power_int_diff)
  also have "(2::rat) powi (j - e) = of_int (2 ^ nat (j - e))"
    using ej by (simp add: power_int_def)
  finally have s: "a / 2 powi e = of_int (\<bar>n\<bar> * 2 ^ nat (j - e))"
    by simp
  have "fl x = sgn x * of_int (round_even (a / 2 powi e)) * 2 powi e"
    using xz by (simp add: fl_def Let_def a_def e_def)
  also have "\<dots> = sgn x * (a / 2 powi e) * 2 powi e"
    unfolding s round_even_int ..
  also have "\<dots> = sgn x * a"
    by simp
  also have "\<dots> = x"
    by (simp add: a_def mult_sgn_abs)
  finally show ?thesis by (simp add: x_def)
qed

lemma fl_int: "\<bar>n\<bar> < 2 ^ 53 \<Longrightarrow> fl (of_int n) = of_int n"
  using fl_exact[of n 0] by simp

lemma fl_half: "\<bar>n\<bar> < 2 ^ 53 \<Longrightarrow> fl (of_int n / 2) = of_int n / 2"
  using fl_exact[of n "-1"] by (simp add: power_int_minus_divide)

text \<open>
  Rounding to a double never crosses an integer below \<open>2 ^ 53\<close>: such an integer is
  itself a double, and rounding is monotone.
\<close>

lemma round_even_bounds:
  shows "\<lfloor>s\<rfloor> \<le> round_even s" and "round_even s \<le> \<lceil>s\<rceil>"
proof -
  define r where "r = s - of_int \<lfloor>s\<rfloor>"
  have r: "0 \<le> r" "r < 1" unfolding r_def by linarith+
  show "\<lfloor>s\<rfloor> \<le> round_even s"
    by (simp add: round_even_def Let_def)
  show "round_even s \<le> \<lceil>s\<rceil>"
  proof (cases "r < 1 / 2")
    case True
    then have "round_even s = \<lfloor>s\<rfloor>" by (simp add: round_even_def Let_def r_def)
    then show ?thesis by (simp add: floor_le_ceiling)
  next
    case False
    then have "of_int \<lfloor>s\<rfloor> < s" unfolding r_def by linarith
    then have "\<lfloor>s\<rfloor> + 1 \<le> \<lceil>s\<rceil>" by linarith
    moreover have "round_even s \<le> \<lfloor>s\<rfloor> + 1" by (simp add: round_even_def Let_def)
    ultimately show ?thesis by linarith
  qed
qed

lemma fl_pos_form:
  assumes "0 < x"
  shows "fl x = of_int (round_even (x / 2 powi (ilog2 x - 52))) * 2 powi (ilog2 x - 52)"
  using assms by (simp add: fl_def Let_def)

lemma fl_nonpos: "x \<le> 0 \<Longrightarrow> fl x \<le> 0"
proof (cases "x = 0")
  case True
  then show ?thesis by (simp add: fl_def)
next
  case False
  assume "x \<le> 0"
  with False have x: "x < 0" by simp
  define s where "s = \<bar>x\<bar> / 2 powi (ilog2 \<bar>x\<bar> - 52)"
  have "0 \<le> s" by (simp add: s_def)
  then have "0 \<le> \<lfloor>s\<rfloor>" by simp
  then have "0 \<le> round_even s" using round_even_bounds(1)[of s] by linarith
  then have "(0::rat) \<le> of_int (round_even s) * 2 powi (ilog2 \<bar>x\<bar> - 52)"
    by simp
  moreover have "fl x = - (of_int (round_even s) * 2 powi (ilog2 \<bar>x\<bar> - 52))"
    using x by (simp add: fl_def Let_def s_def)
  ultimately show ?thesis by linarith
qed

lemma small_exponent:
  assumes "0 < x" and "x < 2 ^ 53"
  shows "ilog2 x - 52 \<le> 0"
proof -
  have "2 powi ilog2 x < (2::rat) powi 53"
    using ilog2_bounds(1)[OF assms(1)] assms(2) by simp
  then have "ilog2 x < 53"
    using power_int_increasing[of 53 "ilog2 x" "2::rat"] by (cases "ilog2 x < 53") auto
  then show ?thesis by simp
qed

lemma fl_ge_int:
  assumes "0 < n" and "n < 2 ^ 53" and "of_int n \<le> x"
  shows "of_int n \<le> fl x"
proof (cases "x < 2 ^ 53")
  case False
  have "(of_int n :: rat) \<le> of_int (2 ^ 53 - 1)"
    using assms(2) by (simp only: of_int_le_iff)
  moreover have "x - \<bar>x\<bar> / 2 ^ 53 \<le> fl x"
    using fl_error[of x] by linarith
  ultimately show ?thesis using False by simp
next
  case True
  have "(0::rat) < of_int n" using assms(1) by simp
  then have x: "0 < x" using assms(3) by linarith
  define e where "e = ilog2 x - 52"
  define P :: int where "P = 2 ^ nat (- e)"
  have e: "e \<le> 0" unfolding e_def by (rule small_exponent[OF x True])
  have pe: "(2::rat) powi e = 1 / of_int P"
    using e by (simp add: P_def power_int_def field_simps)
  have P: "(0::rat) < of_int P" by (simp add: P_def)
  have "of_int (n * P) \<le> x * of_int P"
    using assms(3) P by simp
  then have "n * P \<le> \<lfloor>x * of_int P\<rfloor>"
    by (simp only: le_floor_iff)
  then have "n * P \<le> round_even (x * of_int P)"
    using round_even_bounds(1)[of "x * of_int P"] by linarith
  then have "(of_int (n * P) :: rat) \<le> of_int (round_even (x * of_int P))"
    by (simp only: of_int_le_iff)
  then have "of_int n \<le> of_int (round_even (x * of_int P)) / (of_int P :: rat)"
    using P by (simp add: field_simps)
  moreover have "fl x = of_int (round_even (x * of_int P)) / of_int P"
    unfolding fl_pos_form[OF x] e_def[symmetric] pe by simp
  ultimately show ?thesis by simp
qed

lemma fl_le_int:
  assumes "0 \<le> n" and "n < 2 ^ 53" and "x \<le> of_int n"
  shows "fl x \<le> of_int n"
proof (cases "0 < x")
  case False
  then have "fl x \<le> 0" by (intro fl_nonpos) simp
  moreover have "(0::rat) \<le> of_int n" using assms(1) by simp
  ultimately show ?thesis by linarith
next
  case x: True
  have "(of_int n :: rat) < of_int (2 ^ 53)"
    using assms(2) by (simp only: of_int_less_iff)
  then have small: "x < 2 ^ 53" using assms(3) by simp
  define e where "e = ilog2 x - 52"
  define P :: int where "P = 2 ^ nat (- e)"
  have e: "e \<le> 0" unfolding e_def by (rule small_exponent[OF x small])
  have pe: "(2::rat) powi e = 1 / of_int P"
    using e by (simp add: P_def power_int_def field_simps)
  have P: "(0::rat) < of_int P" by (simp add: P_def)
  have "x * of_int P \<le> of_int (n * P)"
    using assms(3) P by simp
  then have "\<lceil>x * of_int P\<rceil> \<le> n * P"
    by (simp only: ceiling_le_iff)
  then have "round_even (x * of_int P) \<le> n * P"
    using round_even_bounds(2)[of "x * of_int P"] by linarith
  then have "(of_int (round_even (x * of_int P)) :: rat) \<le> of_int (n * P)"
    by (simp only: of_int_le_iff)
  then have "of_int (round_even (x * of_int P)) / (of_int P :: rat) \<le> of_int n"
    using P by (simp add: field_simps)
  moreover have "fl x = of_int (round_even (x * of_int P)) / of_int P"
    unfolding fl_pos_form[OF x] e_def[symmetric] pe by simp
  ultimately show ?thesis by simp
qed

section \<open>Price normalisation\<close>

text \<open>
  Rounding to two decimals and then to the unit is rounding with the threshold moved from
  one half down to 0.495.
\<close>

lemma round_twice: "js_round (of_int (js_round (q * 100)) / 100) = \<lfloor>q + 101 / 200\<rfloor>"
proof -
  define K where "K = \<lfloor>q * 100 + 1 / 2\<rfloor>"
  define R where "R = \<lfloor>q + 101 / 200\<rfloor>"
  have lo: "of_int R \<le> q + 101 / 200" and hi: "q + 101 / 200 < of_int R + 1"
    unfolding R_def by linarith+
  have "of_int (100 * R - 50) \<le> q * 100 + 1 / 2"
    using lo by simp
  then have k_lo: "100 * R - 50 \<le> K"
    unfolding K_def by (simp only: le_floor_iff)
  have "q * 100 + 1 / 2 < of_int (100 * R + 50)"
    using hi by simp
  then have k_hi: "K < 100 * R + 50"
    unfolding K_def by (simp only: floor_less_iff)
  have "of_int R \<le> (of_int K :: rat) / 100 + 1 / 2"
  proof -
    have "(of_int (100 * R - 50) :: rat) \<le> of_int K"
      using k_lo by (simp only: of_int_le_iff)
    then show ?thesis by simp
  qed
  moreover have "(of_int K :: rat) / 100 + 1 / 2 < of_int R + 1"
  proof -
    have "(of_int K :: rat) < of_int (100 * R + 50)"
      using k_hi by (simp only: of_int_less_iff)
    then show ?thesis by simp
  qed
  ultimately have "\<lfloor>(of_int K :: rat) / 100 + 1 / 2\<rfloor> = R"
    by (rule floor_unique)
  then show ?thesis
    by (simp add: js_round_def K_def R_def)
qed

lemma shifted_floor:
  "\<lfloor>q + 101 / 200\<rfloor> = js_round q + (if 99 / 200 \<le> frac q \<and> frac q < 1 / 2 then 1 else 0)"
  for q :: rat
proof -
  define n where "n = \<lfloor>q\<rfloor>"
  define f where "f = q - of_int n"
  have f: "0 \<le> f" "f < 1" and q: "q = of_int n + f" and fr: "frac q = f"
    unfolding f_def n_def frac_def by linarith+
  have a: "\<lfloor>q + 101 / 200\<rfloor> = n + (if 99 / 200 \<le> f then 1 else 0)"
  proof (cases "99 / 200 \<le> f")
    case True
    have "\<lfloor>q + 101 / 200\<rfloor> = n + 1"
      by (rule floor_unique) (use q f True in simp_all)
    then show ?thesis using True by simp
  next
    case False
    have "\<lfloor>q + 101 / 200\<rfloor> = n"
      by (rule floor_unique) (use q f False in simp_all)
    then show ?thesis using False by simp
  qed
  have b: "js_round q = n + (if 1 / 2 \<le> f then 1 else 0)"
  proof (cases "1 / 2 \<le> f")
    case True
    have "\<lfloor>q + 1 / 2\<rfloor> = n + 1"
      by (rule floor_unique) (use q f True in simp_all)
    then show ?thesis using True by (simp add: js_round_def)
  next
    case False
    have "\<lfloor>q + 1 / 2\<rfloor> = n"
      by (rule floor_unique) (use q f False in simp_all)
    then show ?thesis using False by (simp add: js_round_def)
  qed
  show ?thesis unfolding a b fr by auto
qed

text \<open>
  The exact quotient scaled by 100 never comes closer than \<open>1 / 104998\<close> to a rounding
  boundary, because \<open>10000000 * d\<close> is even and an odd multiple of 52499 is odd.
\<close>

lemma half_margin:
  fixes d :: int
  defines "X \<equiv> rat_of_int d / (104998 / 100000) * 100"
  shows "of_int (js_round X) - 1 / 2 + 1 / 104998 \<le> X"
    and "X \<le> of_int (js_round X) + 1 / 2 - 1 / 104998"
proof -
  define M where "M = 2 * (d * 5000000) + 52499"
  define K where "K = M div 104998"
  define r where "r = M mod 104998"
  have X: "X + 1 / 2 = of_int M / of_int 104998"
    by (simp add: X_def M_def field_simps)
  have "js_round X = \<lfloor>rat_of_int M / rat_of_int 104998\<rfloor>"
    unfolding js_round_def X ..
  also have "\<dots> = K"
    unfolding K_def by (rule floor_divide_of_int_eq)
  finally have K: "js_round X = K" .
  have M: "M = 104998 * K + r"
    by (simp add: K_def r_def)
  have "odd M" by (simp add: M_def)
  then have "odd r" unfolding M by simp
  moreover have "0 \<le> r" "r < 104998" by (simp_all add: r_def)
  ultimately have r: "1 \<le> r" "r \<le> 104997"
    by presburger+
  have "X = of_int K - 1 / 2 + of_int r / 104998"
    using X unfolding M by (simp add: field_simps)
  moreover have "(1::rat) \<le> of_int r" "(of_int r :: rat) \<le> 104997"
    using r by simp_all
  ultimately show "of_int (js_round X) - 1 / 2 + 1 / 104998 \<le> X"
    and "X \<le> of_int (js_round X) + 1 / 2 - 1 / 104998"
    unfolding K by (simp_all add: field_simps)
qed

text \<open>The double nearest to the literal \<^verbatim>\<open>1.04998\<close>.\<close>

lemma literal_value: "fl (104998 / 100000) = 4728689536746473 / 4503599627370496"
  by code_simp

text \<open>
  Up to a display price of one hundred million the three roundings to a double in
  \<^verbatim>\<open>Math.round((displayPrice / 1.04998) * 100)\<close> move the product by less than that
  margin, so the double arithmetic and the exact arithmetic round to the same integer; the
  division by 100 that follows is then off by less than half a cent, and exact where its
  result ends in \<open>.5\<close>.
\<close>

lemma first_round:
  assumes "0 < d" and "d \<le> 100000000"
  shows "js_round (fl (fl (rat_of_int d / fl (104998 / 100000)) * 100))
           = js_round (rat_of_int d / (104998 / 100000) * 100)"
proof -
  define D where "D = rat_of_int d"
  define q0 where "q0 = D / (4728689536746473 / 4503599627370496)"
  define q1 where "q1 = fl q0"
  define p0 where "p0 = q1 * 100"
  define x2 where "x2 = fl p0"
  define X where "X = D / (104998 / 100000) * 100"
  have D: "1 \<le> D" "D \<le> 100000000"
    using assms by (simp_all add: D_def)
  have q0: "0 < q0" "q0 \<le> D"
    using D by (simp_all add: q0_def)
  have e1: "\<bar>q1 - q0\<bar> \<le> q0 / 2 ^ 53"
    using fl_error[of q0] q0 by (simp add: q1_def)
  have q1: "q0 - q0 / 2 ^ 53 \<le> q1" "q1 \<le> q0 + q0 / 2 ^ 53"
    using e1 by linarith+
  have small: "q0 / 2 ^ 53 \<le> q0 / 100"
    using q0 by simp
  have p0: "0 \<le> p0" "p0 \<le> 101 * D"
    using q1 small q0 unfolding p0_def by linarith+
  have e2: "\<bar>x2 - p0\<bar> \<le> p0 / 2 ^ 53"
    using fl_error[of p0] p0 by (simp add: x2_def)
  have e0: "\<bar>q0 * 100 - X\<bar> \<le> D / 10 ^ 14"
    using D by (simp add: q0_def X_def)
  have "\<bar>x2 - X\<bar> \<le> \<bar>x2 - p0\<bar> + \<bar>p0 - q0 * 100\<bar> + \<bar>q0 * 100 - X\<bar>"
    by linarith
  moreover have "\<bar>p0 - q0 * 100\<bar> \<le> 100 * (q0 / 2 ^ 53)"
    using q1 unfolding p0_def by linarith
  moreover have "100 * (q0 / 2 ^ 53) \<le> 100 * (D / 2 ^ 53)"
    using q0 by simp
  moreover have "p0 / 2 ^ 53 \<le> 101 * D / 2 ^ 53"
    using p0 by simp
  ultimately have "\<bar>x2 - X\<bar> \<le> 101 * D / 2 ^ 53 + 100 * (D / 2 ^ 53) + D / 10 ^ 14"
    using e0 e2 by linarith
  also have "\<dots> < 1 / 104998"
    using D by simp
  finally have close: "\<bar>x2 - X\<bar> < 1 / 104998" .
  from half_margin[of d]
  have m1: "of_int (js_round X) - 1 / 2 + 1 / 104998 \<le> X"
    and m2: "X \<le> of_int (js_round X) + 1 / 2 - 1 / 104998"
    by (simp_all add: X_def D_def)
  have "\<lfloor>x2 + 1 / 2\<rfloor> = js_round X"
    by (rule floor_unique) (use close m1 m2 in linarith)+
  then have "js_round x2 = js_round X"
    unfolding js_round_def[of x2] .
  then show ?thesis
    unfolding x2_def p0_def q1_def q0_def X_def D_def literal_value .
qed

lemma second_round:
  assumes "0 \<le> K" and "K \<le> 10000000000"
  shows "js_round (fl (rat_of_int K / 100)) = js_round (rat_of_int K / 100)"
proof -
  define y where "y = rat_of_int K / 100"
  define a where "a = fl y"
  define R where "R = js_round y"
  have K: "(0::rat) \<le> of_int K" "rat_of_int K \<le> 10000000000"
    using assms by simp_all
  have y: "0 \<le> y" "y \<le> 100000000"
    using K by (simp_all add: y_def)
  have "\<bar>a - y\<bar> \<le> \<bar>y\<bar> / 2 ^ 53"
    unfolding a_def by (rule fl_error)
  moreover have "y / 2 ^ 53 \<le> 1 / 200"
    using y by simp
  ultimately have e: "\<bar>a - y\<bar> \<le> 1 / 200"
    using y by simp
  have "R = \<lfloor>rat_of_int (K + 50) / rat_of_int 100\<rfloor>"
    by (simp add: R_def js_round_def y_def field_simps)
  also have "\<dots> = (K + 50) div 100"
    by (rule floor_divide_of_int_eq)
  finally have R: "R = (K + 50) div 100" .
  have lo: "100 * R - 50 \<le> K" and hi: "K \<le> 100 * R + 49"
    unfolding R by presburger+
  have "rat_of_int K \<le> of_int (100 * R + 49)"
    using hi by (simp only: of_int_le_iff)
  then have y_hi: "y \<le> of_int R + 49 / 100"
    by (simp add: y_def)
  have lower: "of_int R \<le> a + 1 / 2"
  proof (cases "K = 100 * R - 50")
    case True
    then have yy: "y = rat_of_int (2 * R - 1) / 2"
      by (simp add: y_def)
    have "- 1 \<le> 2 * R - 1" "2 * R - 1 \<le> 200000001"
      using assms lo hi by linarith+
    then have "\<bar>2 * R - 1\<bar> < 2 ^ 53"
      by simp
    then have "a = y"
      unfolding a_def yy by (rule fl_half)
    then show ?thesis
      unfolding yy by simp
  next
    case False
    then have "100 * R - 49 \<le> K"
      using lo by simp
    then have "rat_of_int (100 * R - 49) \<le> of_int K"
      by (simp only: of_int_le_iff)
    then have "of_int R - 49 / 100 \<le> y"
      by (simp add: y_def)
    then show ?thesis
      using e by linarith
  qed
  have upper: "a + 1 / 2 < of_int R + 1"
    using e y_hi by linarith
  have "\<lfloor>a + 1 / 2\<rfloor> = R"
    using lower upper by (rule floor_unique)
  then have "js_round a = R"
    unfolding js_round_def[of a] .
  then show ?thesis
    unfolding a_def R_def y_def .
qed

lemma actualPrice_positive:
  assumes "0 < d" and "d \<le> 100000000"
  shows "ph_actualPrice (priceData h date (Some d) av) =
           Some \<lfloor>of_int d / (104998 / 100000) + 101 / (200::rat)\<rfloor>"
proof -
  define q :: rat where "q = of_int d / (104998 / 100000)"
  define K where "K = js_round (q * 100)"
  have D: "(1::rat) \<le> of_int d" "rat_of_int d \<le> 100000000"
    using assms by simp_all
  have q: "100000 / 104998 \<le> q" "q \<le> 100000000"
    using D by (simp_all add: q_def)
  have "rat_of_int 0 \<le> q * 100 + 1 / 2" "q * 100 + 1 / 2 < rat_of_int 10000000001"
    using q by simp_all
  then have "0 \<le> K" "K < 10000000001"
    unfolding K_def js_round_def by (simp_all only: le_floor_iff floor_less_iff)
  then have K: "0 \<le> K" "K \<le> 10000000000"
    by simp_all
  have c: "calculateActualPrice (of_int d) = fl (of_int K / 100)"
    unfolding calculateActualPrice_def K_def q_def
    by (simp only: first_round[OF assms])
  have "js_round (calculateActualPrice (of_int d)) = js_round (of_int K / 100)"
    unfolding c by (rule second_round[OF K])
  also have "\<dots> = \<lfloor>q + 101 / 200\<rfloor>"
    unfolding K_def by (rule round_twice)
  finally have r: "js_round (calculateActualPrice (of_int d)) = \<lfloor>q + 101 / 200\<rfloor>" .
  have "rat_of_int 1 \<le> q + 101 / 200"
    using q by simp
  then have "1 \<le> \<lfloor>q + 101 / 200\<rfloor>"
    by (simp only: le_floor_iff)
  then have "\<lfloor>q + 101 / 200\<rfloor> \<noteq> 0"
    by linarith
  moreover have "js_round 0 = 0"
    by code_simp
  ultimately have "js_round (calculateActualPrice (of_int d)) \<noteq> js_round 0"
    unfolding r by simp
  then have nz: "calculateActualPrice (of_int d) \<noteq> 0"
    by auto
  show ?thesis
    using assms nz r by (simp add: priceData_def Let_def q_def)
qed

text \<open>
  C1, as amended. For every integer display price \<open>d\<close> with \<open>0 < d \<le> 100000000\<close>,
  \<^verbatim>\<open>savePriceHistory\<close> appends one row whose base price is \<open>d / 1.04998\<close> rounded half-up
  to two decimals and then rounded half-up again to the unit, that is
  \<open>\<lfloor>d / 1.04998 + 0.505\<rfloor>\<close>. This is the direct half-up rounding of \<open>d / 1.04998\<close>, except
  that it is one unit higher when the fractional part of the quotient lies in
  \<open>[0.495, 0.5)\<close>. A null display price gives a null base price.
\<close>

theorem savePriceHistory_base_price:
  "(0 < d \<and> d \<le> 100000000 \<longrightarrow>
      (\<exists>row. savePriceHistory (Some db) h date (Some d) av
                = Inr (db\<lparr> priceHistory := priceHistory db @ [row] \<rparr>) \<and>
             ph_displayPrice row = Some d \<and>
             ph_actualPrice row = Some \<lfloor>rat_of_int d / (104998 / 100000) + 101 / 200\<rfloor> \<and>
             ph_actualPrice row =
               Some (js_round (rat_of_int d / (104998 / 100000)) +
                     (if 99 / 200 \<le> frac (rat_of_int d / (104998 / 100000)) \<and>
                         frac (rat_of_int d / (104998 / 100000)) < 1 / 2 then 1 else 0)))) \<and>
   (\<exists>row. savePriceHistory (Some db) h date None av
             = Inr (db\<lparr> priceHistory := priceHistory db @ [row] \<rparr>) \<and>
          ph_displayPrice row = None \<and> ph_actualPrice row = None)"
proof (intro conjI impI)
  assume "0 < d \<and> d \<le> 100000000"
  then have d: "0 < d" "d \<le> 100000000"
    by simp_all
  let ?row = "priceData h date (Some d) av"
  have "savePriceHistory (Some db) h date (Some d) av
          = Inr (db\<lparr> priceHistory := priceHistory db @ [?row] \<rparr>)"
    by (simp add: savePriceHistory_def)
  moreover have "ph_displayPrice ?row = Some d"
    by (simp add: priceData_def Let_def)
  moreover note actualPrice_positive[OF d, of h date av]
  moreover have "ph_actualPrice ?row =
               Some (js_round (rat_of_int d / (104998 / 100000)) +
                     (if 99 / 200 \<le> frac (rat_of_int d / (104998 / 100000)) \<and>
                         frac (rat_of_int d / (104998 / 100000)) < 1 / 2 then 1 else 0))"
    using actualPrice_positive[OF d, of h date av]
      shifted_floor[of "rat_of_int d / (104998 / 100000)"]
    by simp
  ultimately show "\<exists>row. savePriceHistory (Some db) h date (Some d) av
                = Inr (db\<lparr> priceHistory := priceHistory db @ [row] \<rparr>) \<and>
             ph_displayPrice row = Some d \<and>
             ph_actualPrice row = Some \<lfloor>rat_of_int d / (104998 / 100000) + 101 / 200\<rfloor> \<and>
             ph_actualPrice row =
               Some (js_round (rat_of_int d / (104998 / 100000)) +
                     (if 99 / 200 \<le> frac (rat_of_int d / (104998 / 100000)) \<and>
                         frac (rat_of_int d / (104998 / 100000)) < 1 / 2 then 1 else 0))"
    by blast
next
  let ?row = "priceData h date None av"
  have "savePriceHistory (Some db) h date None av
          = Inr (db\<lparr> priceHistory := priceHistory db @ [?row] \<rparr>)"
    by (simp add: savePriceHistory_def)
  moreover have "ph_displayPrice ?row = None" "ph_actualPrice ?row = None"
    by (simp_all add: priceData_def Let_def)
  ultimately show "\<exists>row. savePriceHistory (Some db) h date None av
             = Inr (db\<lparr> priceHistory := priceHistory db @ [row] \<rparr>) \<and>
          ph_displayPrice row = None \<and> ph_actualPrice row = None"
    by blast
qed

text \<open>
  The two examples of the claim: a display price of 210 is stored with base price 200, and
  300 with 286.
\<close>

theorem savePriceHistory_base_price_witness:
  "(0::int) < 210 \<and> (210::int) \<le> 100000000 \<and> (0::int) < 300 \<and> (300::int) \<le> 100000000 \<and>
   savePriceHistory (Some empty_db) 1 (2026, 2, 16) (Some 210) True =
     Inr (empty_db\<lparr> priceHistory :=
            [\<lparr> ph_hotelId = 1, ph_date = (2026, 2, 16), ph_displayPrice = Some 210,
               ph_actualPrice = Some 200, ph_currency = ''SAR'', ph_available = 1 \<rparr>] \<rparr>) \<and>
   savePriceHistory (Some empty_db) 1 (2026, 2, 16) (Some 300) True =
     Inr (empty_db\<lparr> priceHistory :=
            [\<lparr> ph_hotelId = 1, ph_date = (2026, 2, 16), ph_displayPrice = Some 300,
               ph_actualPrice = Some 286, ph_currency = ''SAR'', ph_available = 1 \<rparr>] \<rparr>)"
proof -
  have a: "\<lfloor>rat_of_int 210 / (104998 / 100000) + 101 / 200\<rfloor> = 200" by code_simp
  have b: "\<lfloor>rat_of_int 300 / (104998 / 100000) + 101 / 200\<rfloor> = 286" by code_simp
  have pa: "(0::int) < 210 \<and> (210::int) \<le> 100000000" by simp
  have pb: "(0::int) < 300 \<and> (300::int) \<le> 100000000" by simp
  have row: "r = priceData h date dp av"
    if "savePriceHistory (Some db) h date dp av = Inr (db\<lparr> priceHistory := priceHistory db @ [r] \<rparr>)"
    for r h date dp av db
  proof -
    have "priceHistory (db\<lparr> priceHistory := priceHistory db @ [priceData h date dp av] \<rparr>)
            = priceHistory (db\<lparr> priceHistory := priceHistory db @ [r] \<rparr>)"
      using that by (simp only: savePriceHistory_def option.case sum.inject)
    then show ?thesis by simp
  qed
  have "ph_actualPrice (priceData 1 (2026, 2, 16) (Some 210) True) = Some 200"
    using savePriceHistory_base_price[of 210 empty_db 1 "(2026, 2, 16)" True] a pa row
    by metis
  moreover have "ph_actualPrice (priceData 1 (2026, 2, 16) (Some 300) True) = Some 286"
    using savePriceHistory_base_price[of 300 empty_db 1 "(2026, 2, 16)" True] b pb row
    by metis
  ultimately show ?thesis
    by (simp add: savePriceHistory_def priceData_def Let_def empty_db_def)
qed

text \<open>
  The claim as stated fails at a display price of 1040: the quotient is 990.495..., which
  rounds half-up to 990, but its two-decimal rounding is 990.50 and the stored base price
  is 991.
\<close>

theorem savePriceHistory_double_rounding_counterexample:
  "savePriceHistory (Some empty_db) 1 (2026, 2, 16) (Some 1040) True =
     Inr (empty_db\<lparr> priceHistory :=
            [\<lparr> ph_hotelId = 1, ph_date = (2026, 2, 16), ph_displayPrice = Some 1040,
               ph_actualPrice = Some 991, ph_currency = ''SAR'', ph_available = 1 \<rparr>] \<rparr>) \<and>
   js_round (1040 / (104998 / 100000)) = 990"
proof -
  have "js_round (calculateActualPrice (rat_of_int 1040)) = 991"
    and "calculateActualPrice (rat_of_int 1040) \<noteq> 0"
    and "js_round (1040 / (104998 / 100000)) = 990"
    by code_simp+
  then show ?thesis
    by (simp add: savePriceHistory_def priceData_def Let_def empty_db_def)
qed

text \<open>
  The bound on the display price is needed. At 563727424 the quotient scaled by 100 lies so
  close to a rounding boundary that the rounding of the doubles crosses it: the stored base
  price is 536893488, while \<open>\<lfloor>d / 1.04998 + 0.505\<rfloor>\<close> is 536893487.
\<close>

lemma savePriceHistory_large_price:
  "ph_actualPrice (priceData 1 (2026, 2, 16) (Some 563727424) True) = Some 536893488 \<and>
   \<lfloor>rat_of_int 563727424 / (104998 / 100000) + 101 / 200\<rfloor> = 536893487"
proof -
  have "js_round (calculateActualPrice (rat_of_int 563727424)) = 536893488"
    and "calculateActualPrice (rat_of_int 563727424) \<noteq> 0"
    and "\<lfloor>rat_of_int 563727424 / (104998 / 100000) + 101 / 200\<rfloor> = 536893487"
    by code_simp+
  then show ?thesis
    by (simp add: priceData_def Let_def)
qed

section \<open>Alerts\<close>

lemma find_filter: "find P xs = (case filter P xs of [] \<Rightarrow> None | x # _ \<Rightarrow> Some x)"
  by (induction xs) auto

lemma list_all_ids:
  "list_all (\<lambda>a. pa_id a < n) rows \<longleftrightarrow> list_all (\<lambda>i. i < n) (map pa_id rows)"
  by (induction rows) auto

lemma update_by_id_in_place:
  assumes "distinct (map pa_id rows)" and "e \<in> set rows"
  shows "map (\<lambda>a. if pa_id a = pa_id e then g a else a) rows
           = map (\<lambda>a. if a = e then g e else a) rows"
proof (rule map_cong[OF refl])
  fix a assume "a \<in> set rows"
  with assms have "pa_id a = pa_id e \<longleftrightarrow> a = e"
    by (meson distinct_map inj_on_eq_iff)
  then show "(if pa_id a = pa_id e then g a else a) = (if a = e then g e else a)"
    by auto
qed

lemma active_for_update:
  assumes "\<And>a. pa_userId (g a) = pa_userId a" "\<And>a. pa_hotelId (g a) = pa_hotelId a"
    "\<And>a. pa_date (g a) = pa_date a" "\<And>a. pa_isActive (g a) = pa_isActive a"
  shows "active_for u h d (map (\<lambda>a. if Q a then g a else a) rows)
           = map (\<lambda>a. if Q a then g a else a) (active_for u h d rows)"
  unfolding active_for_def by (induction rows) (auto simp: assms)

text \<open>
  C8. Let the difference be \<open>competitorPrice - userPrice\<close> and let the table obey its
  primary key. If the difference is not negative, \<^verbatim>\<open>createPriceAlert\<close> returns the
  database as it was: no alert is created and no existing alert changes. If it is negative
  and the key (user, hotel, date) has an active alert, the first such row is updated where it
  stands (competitor price, difference, alert type, creation time) and every other row is
  kept, so no row is added; if the key has no active alert, exactly one new active row is
  appended. Either way the key has afterwards as many active alerts as before, or one if it
  had none, and the primary key still holds.
\<close>

theorem createPriceAlert_cases:
  assumes "alerts_keyed db"
  shows
    "(0 \<le> competitorPrice - userPrice \<longrightarrow>
        createPriceAlert (Some db) now u h d userPrice competitorPrice = Inr db) \<and>
     (competitorPrice - userPrice < 0 \<longrightarrow>
        (\<exists>db'. createPriceAlert (Some db) now u h d userPrice competitorPrice = Inr db' \<and>
           alerts_keyed db' \<and>
           (case active_for u h d (priceAlerts db) of
              e # _ \<Rightarrow>
                priceAlerts db' =
                  map (\<lambda>a. if a = e
                            then a\<lparr> pa_competitorPrice := competitorPrice,
                                    pa_priceDifference := competitorPrice - userPrice,
                                    pa_alertType := price_lower,
                                    pa_createdAt := now \<rparr>
                            else a) (priceAlerts db)
            | [] \<Rightarrow>
                priceAlerts db' =
                  priceAlerts db @
                    [\<lparr> pa_id = priceAlerts_autoinc db, pa_userId = u, pa_hotelId = h,
                       pa_date = d, pa_userPrice = userPrice,
                       pa_competitorPrice = competitorPrice,
                       pa_priceDifference = competitorPrice - userPrice,
                       pa_alertType = price_lower, pa_isActive = 1,
                       pa_createdAt = now, pa_dismissedAt = None \<rparr>]) \<and>
           length (active_for u h d (priceAlerts db')) =
             (if active_for u h d (priceAlerts db) = [] then 1
              else length (active_for u h d (priceAlerts db)))))"
proof (intro conjI impI)
  assume "0 \<le> competitorPrice - userPrice"
  then show "createPriceAlert (Some db) now u h d userPrice competitorPrice = Inr db"
    by (simp add: createPriceAlert_def Let_def)
next
  assume neg: "competitorPrice - userPrice < 0"
  let ?rows = "priceAlerts db"
  let ?g = "\<lambda>a. a\<lparr> pa_competitorPrice := competitorPrice,
                     pa_priceDifference := competitorPrice - userPrice,
                     pa_alertType := price_lower,
                     pa_createdAt := now \<rparr>"
  from assms have dist: "distinct (map pa_id ?rows)"
    and below: "list_all (\<lambda>a. pa_id a < priceAlerts_autoinc db) ?rows"
    by (simp_all add: alerts_keyed_def)
  show "\<exists>db'. createPriceAlert (Some db) now u h d userPrice competitorPrice = Inr db' \<and>
           alerts_keyed db' \<and>
           (case active_for u h d (priceAlerts db) of
              e # _ \<Rightarrow>
                priceAlerts db' =
                  map (\<lambda>a. if a = e
                            then a\<lparr> pa_competitorPrice := competitorPrice,
                                    pa_priceDifference := competitorPrice - userPrice,
                                    pa_alertType := price_lower,
                                    pa_createdAt := now \<rparr>
                            else a) (priceAlerts db)
            | [] \<Rightarrow>
                priceAlerts db' =
                  priceAlerts db @
                    [\<lparr> pa_id = priceAlerts_autoinc db, pa_userId = u, pa_hotelId = h,
                       pa_date = d, pa_userPrice = userPrice,
                       pa_competitorPrice = competitorPrice,
                       pa_priceDifference = competitorPrice - userPrice,
                       pa_alertType = price_lower, pa_isActive = 1,
                       pa_createdAt = now, pa_dismissedAt = None \<rparr>]) \<and>
           length (active_for u h d (priceAlerts db')) =
             (if active_for u h d (priceAlerts db) = [] then 1
              else length (active_for u h d (priceAlerts db)))"
  proof (cases "active_for u h d ?rows")
    case Nil
    let ?new = "\<lparr> pa_id = priceAlerts_autoinc db, pa_userId = u, pa_hotelId = h,
                   pa_date = d, pa_userPrice = userPrice,
                   pa_competitorPrice = competitorPrice,
                   pa_priceDifference = competitorPrice - userPrice,
                   pa_alertType = price_lower, pa_isActive = 1,
                   pa_createdAt = now, pa_dismissedAt = None \<rparr>"
    let ?db' = "db\<lparr> priceAlerts := ?rows @ [?new],
                    priceAlerts_autoinc := Suc (priceAlerts_autoinc db) \<rparr>"
    have run: "createPriceAlert (Some db) now u h d userPrice competitorPrice = Inr ?db'"
      using neg Nil by (simp add: createPriceAlert_def Let_def find_filter active_for_def)
    have fresh: "priceAlerts_autoinc db \<notin> pa_id ` set ?rows"
      using below by (auto simp: list_all_iff)
    have keyed: "alerts_keyed ?db'"
      using dist below fresh by (auto simp: alerts_keyed_def list_all_iff)
    have act: "active_for u h d (?rows @ [?new]) = [?new]"
      using Nil by (simp add: active_for_def)
    show ?thesis
      apply (rule exI[of _ ?db'])
      using run keyed act Nil by simp
  next
    case (Cons e rest)
    have "e \<in> set (active_for u h d ?rows)"
      unfolding Cons by simp
    then have e_in: "e \<in> set ?rows"
      by (simp add: active_for_def)
    let ?byid = "map (\<lambda>a. if pa_id a = pa_id e then ?g a else a) ?rows"
    let ?upd = "map (\<lambda>a. if a = e then ?g a else a) ?rows"
    let ?db' = "db\<lparr> priceAlerts := ?upd \<rparr>"
    have "?byid = map (\<lambda>a. if a = e then ?g e else a) ?rows"
      by (rule update_by_id_in_place[OF dist e_in])
    also have "\<dots> = ?upd"
      by (rule map_cong) auto
    finally have inplace: "?byid = ?upd" .
    have "createPriceAlert (Some db) now u h d userPrice competitorPrice
            = Inr (db\<lparr> priceAlerts := ?byid \<rparr>)"
      using neg Cons by (simp add: createPriceAlert_def Let_def find_filter active_for_def)
    then have run: "createPriceAlert (Some db) now u h d userPrice competitorPrice = Inr ?db'"
      by (simp only: inplace)
    have ids: "map pa_id ?upd = map pa_id ?rows"
      by (induction ?rows) auto
    have rows': "priceAlerts ?db' = ?upd"
      and inc': "priceAlerts_autoinc ?db' = priceAlerts_autoinc db"
      by simp_all
    have keyed: "alerts_keyed ?db'"
      unfolding alerts_keyed_def list_all_ids rows' inc' ids
      using dist below by (simp only: list_all_ids simp_thms)
    have "active_for u h d ?upd = map (\<lambda>a. if a = e then ?g a else a) (active_for u h d ?rows)"
      by (rule active_for_update) simp_all
    then have len: "length (active_for u h d (priceAlerts ?db')) = length (active_for u h d ?rows)"
      unfolding rows' by simp
    show ?thesis
      unfolding Cons list.case
    proof (intro exI[of _ ?db'] conjI)
      show "createPriceAlert (Some db) now u h d userPrice competitorPrice = Inr ?db'"
        by (rule run)
      show "alerts_keyed ?db'"
        by (rule keyed)
      show "priceAlerts ?db' = ?upd"
        by (rule rows')
      show "length (active_for u h d (priceAlerts ?db')) =
              (if e # rest = [] then 1 else length (e # rest))"
        using len Cons by simp
    qed
  qed
qed

text \<open>
  The example of the specification: own price 220 against 200 creates the alert with
  difference -20; against 205 the same row becomes -15; against 230 nothing changes, and the
  unrelated alert of another key is kept throughout.
\<close>

theorem createPriceAlert_cases_witness:
  "alerts_keyed alert_db0 \<and>
   createPriceAlert (Some alert_db0) 1000 7 3 ''2026-02-16'' 220 200 =
     Inr (alert_db0\<lparr> priceAlerts := priceAlerts alert_db0 @
            [\<lparr> pa_id = 2, pa_userId = 7, pa_hotelId = 3, pa_date = ''2026-02-16'',
               pa_userPrice = 220, pa_competitorPrice = 200, pa_priceDifference = - 20,
               pa_alertType = price_lower, pa_isActive = 1, pa_createdAt = 1000,
               pa_dismissedAt = None \<rparr>],
          priceAlerts_autoinc := 3 \<rparr>) \<and>
   createPriceAlert
     (Some (alert_db0\<lparr> priceAlerts := priceAlerts alert_db0 @
            [\<lparr> pa_id = 2, pa_userId = 7, pa_hotelId = 3, pa_date = ''2026-02-16'',
               pa_userPrice = 220, pa_competitorPrice = 200, pa_priceDifference = - 20,
               pa_alertType = price_lower, pa_isActive = 1, pa_createdAt = 1000,
               pa_dismissedAt = None \<rparr>],
          priceAlerts_autoinc := 3 \<rparr>)) 2000 7 3 ''2026-02-16'' 220 205 =
     Inr (alert_db0\<lparr> priceAlerts := priceAlerts alert_db0 @
            [\<lparr> pa_id = 2, pa_userId = 7, pa_hotelId = 3, pa_date = ''2026-02-16'',
               pa_userPrice = 220, pa_competitorPrice = 205, pa_priceDifference = - 15,
               pa_alertType = price_lower, pa_isActive = 1, pa_createdAt = 2000,
               pa_dismissedAt = None \<rparr>],
          priceAlerts_autoinc := 3 \<rparr>) \<and>
   createPriceAlert (Some alert_db0) 3000 7 3 ''2026-02-16'' 220 230 = Inr alert_db0 \<and>
   (\<exists>db'. createPriceAlert (Some alert_db0) 1000 7 3 ''2026-02-16'' 220 200 = Inr db' \<and>
          alerts_keyed db' \<and>
          length (active_for 7 3 ''2026-02-16'' (priceAlerts db')) = 1)"
proof -
  have k: "alerts_keyed alert_db0"
    by (simp add: alerts_keyed_def alert_db0_def empty_db_def)
  have none: "active_for 7 3 ''2026-02-16'' (priceAlerts alert_db0) = []"
    by (simp add: active_for_def alert_db0_def empty_db_def)
  have same: "createPriceAlert (Some alert_db0) 3000 7 3 ''2026-02-16'' 220 230 = Inr alert_db0"
    using createPriceAlert_cases[OF k, of 230 220 3000 7 3 "''2026-02-16''"] by simp
  have new: "\<exists>db'. createPriceAlert (Some alert_db0) 1000 7 3 ''2026-02-16'' 220 200 = Inr db' \<and>
          alerts_keyed db' \<and>
          length (active_for 7 3 ''2026-02-16'' (priceAlerts db')) = 1"
    using createPriceAlert_cases[OF k, of 200 220 1000 7 3 "''2026-02-16''"] none
    by auto
  have steps: "createPriceAlert (Some alert_db0) 1000 7 3 ''2026-02-16'' 220 200 =
     Inr (alert_db0\<lparr> priceAlerts := priceAlerts alert_db0 @
            [\<lparr> pa_id = 2, pa_userId = 7, pa_hotelId = 3, pa_date = ''2026-02-16'',
               pa_userPrice = 220, pa_competitorPrice = 200, pa_priceDifference = - 20,
               pa_alertType = price_lower, pa_isActive = 1, pa_createdAt = 1000,
               pa_dismissedAt = None \<rparr>],
          priceAlerts_autoinc := 3 \<rparr>)"
    "createPriceAlert
     (Some (alert_db0\<lparr> priceAlerts := priceAlerts alert_db0 @
            [\<lparr> pa_id = 2, pa_userId = 7, pa_hotelId = 3, pa_date = ''2026-02-16'',
               pa_userPrice = 220, pa_competitorPrice = 200, pa_priceDifference = - 20,
               pa_alertType = price_lower, pa_isActive = 1, pa_createdAt = 1000,
               pa_dismissedAt = None \<rparr>],
          priceAlerts_autoinc := 3 \<rparr>)) 2000 7 3 ''2026-02-16'' 220 205 =
     Inr (alert_db0\<lparr> priceAlerts := priceAlerts alert_db0 @
            [\<lparr> pa_id = 2, pa_userId = 7, pa_hotelId = 3, pa_date = ''2026-02-16'',
               pa_userPrice = 220, pa_competitorPrice = 205, pa_priceDifference = - 15,
               pa_alertType = price_lower, pa_isActive = 1, pa_createdAt = 2000,
               pa_dismissedAt = None \<rparr>],
          priceAlerts_autoinc := 3 \<rparr>)"
    by (simp_all add: createPriceAlert_def Let_def alert_db0_def empty_db_def)
  show ?thesis
    using k steps same new by (intro conjI)
qed

section \<open>Session manager\<close>

lemma files_ensure [simp]: "files (ensureSessionDir fs) = files fs"
  by (simp add: ensureSessionDir_def)

lemma dir_ensure [simp]: "dir_exists (ensureSessionDir fs)"
  by (simp add: ensureSessionDir_def)

lemma ensure_idem [simp]: "ensureSessionDir (ensureSessionDir fs) = ensureSessionDir fs"
  by (simp add: ensureSessionDir_def)

lemma files_delete: "files (deleteSession fs u) = (files fs)(u := None)"
  by (auto simp: deleteSession_def Let_def)

lemma files_save: "files (saveSession fs u s) = (files fs)(u \<mapsto> Parses s)"
  by (simp add: saveSession_def Let_def)

lemma delete_absent: "dir_exists fs \<Longrightarrow> files fs u = None \<Longrightarrow> deleteSession fs u = fs"
  by (simp add: deleteSession_def Let_def ensureSessionDir_def)

lemma dir_delete [simp]: "dir_exists (deleteSession fs u)"
  by (simp add: deleteSession_def Let_def)

lemma loadSession_expired:
  assumes "files fs u = Some (Parses s)" and "toNumber (expiresAt s) = Some e"
    and "rat_of_int now > e"
  shows "fst (loadSession now fs u) = None"
    and "files (snd (loadSession now fs u)) = (files fs)(u := None)"
    and "deleteSession (snd (loadSession now fs u)) u = snd (loadSession now fs u)"
proof -
  have l: "loadSession now fs u = (None, deleteSession (ensureSessionDir fs) u)"
    using assms by (simp add: loadSession_def Let_def now_gt_def)
  show "fst (loadSession now fs u) = None"
    by (simp add: l)
  show "files (snd (loadSession now fs u)) = (files fs)(u := None)"
    by (simp add: l files_delete)
  show "deleteSession (snd (loadSession now fs u)) u = snd (loadSession now fs u)"
    unfolding l snd_conv by (rule delete_absent) (simp_all add: files_delete)
qed

lemma loadSession_valid:
  assumes "files fs u = Some (Parses s)" and "\<not> now_gt now (expiresAt s)"
  shows "loadSession now fs u = (Some s, ensureSessionDir fs)"
  using assms by (simp add: loadSession_def Let_def)

text \<open>
  C5, as amended. \<^verbatim>\<open>loadSession\<close> always returns, and it returns null exactly when
  the owner has no file, the file does not parse, or the stored \<^verbatim>\<open>expiresAt\<close> is
  before the current time. An expired session is deleted, after which deleting again changes
  nothing; a file that does not parse is reported as absent but is left in place. In
  particular a session created at \<open>t\<close> and loaded one second after its fifteen days is
  reported absent and is gone from the store afterwards.
\<close>

theorem loadSession_fails_closed:
  "(fst (loadSession now fs u) = None \<longleftrightarrow>
      files fs u = None \<or> files fs u = Some Unparsable \<or>
      (\<exists>s e. files fs u = Some (Parses s) \<and> toNumber (expiresAt s) = Some e \<and>
             rat_of_int now > e)) \<and>
   (files fs u = Some Unparsable \<longrightarrow>
      loadSession now fs u = (None, ensureSessionDir fs) \<and>
      files (snd (loadSession now fs u)) u = Some Unparsable) \<and>
   (\<forall>s e. files fs u = Some (Parses s) \<and> toNumber (expiresAt s) = Some e \<and>
          rat_of_int now > e \<longrightarrow>
      fst (loadSession now fs u) = None \<and>
      files (snd (loadSession now fs u)) = (files fs)(u := None) \<and>
      deleteSession (snd (loadSession now fs u)) u = snd (loadSession now fs u)) \<and>
   (let fs1 = saveSession fs u (createSession t cks ls ss);
        later = t + 15 * 24 * 60 * 60 * 1000 + 1000
    in fst (loadSession later fs1 u) = None \<and>
       files (snd (loadSession later fs1 u)) u = None \<and>
       deleteSession (snd (loadSession later fs1 u)) u = snd (loadSession later fs1 u))"
proof (intro conjI allI impI)
  show "fst (loadSession now fs u) = None \<longleftrightarrow>
      files fs u = None \<or> files fs u = Some Unparsable \<or>
      (\<exists>s e. files fs u = Some (Parses s) \<and> toNumber (expiresAt s) = Some e \<and>
             rat_of_int now > e)"
    by (auto simp: loadSession_def Let_def now_gt_def split: option.splits json_text.splits)
next
  assume "files fs u = Some Unparsable"
  then show "loadSession now fs u = (None, ensureSessionDir fs)"
    and "files (snd (loadSession now fs u)) u = Some Unparsable"
    by (simp_all add: loadSession_def Let_def)
next
  fix s e
  assume "files fs u = Some (Parses s) \<and> toNumber (expiresAt s) = Some e \<and> rat_of_int now > e"
  then have a: "files fs u = Some (Parses s)" "toNumber (expiresAt s) = Some e"
    "rat_of_int now > e"
    by simp_all
  show "fst (loadSession now fs u) = None"
    by (rule loadSession_expired(1)[OF a])
  show "files (snd (loadSession now fs u)) = (files fs)(u := None)"
    by (rule loadSession_expired(2)[OF a])
  show "deleteSession (snd (loadSession now fs u)) u = snd (loadSession now fs u)"
    by (rule loadSession_expired(3)[OF a])
next
  define fs1 where "fs1 = saveSession fs u (createSession t cks ls ss)"
  define later where "later = t + 15 * 24 * 60 * 60 * 1000 + 1000"
  have a: "files fs1 u = Some (Parses (createSession t cks ls ss))"
    "toNumber (expiresAt (createSession t cks ls ss))
       = Some (rat_of_int (t + 15 * 24 * 60 * 60 * 1000))"
    "rat_of_int later > rat_of_int (t + 15 * 24 * 60 * 60 * 1000)"
    by (simp_all add: fs1_def later_def files_save createSession_def toNumber_def)
  have "fst (loadSession later fs1 u) = None"
    by (rule loadSession_expired(1)[OF a])
  moreover have "files (snd (loadSession later fs1 u)) u = None"
    by (simp add: loadSession_expired(2)[OF a])
  moreover have "deleteSession (snd (loadSession later fs1 u)) u = snd (loadSession later fs1 u)"
    by (rule loadSession_expired(3)[OF a])
  ultimately show "let fs1 = saveSession fs u (createSession t cks ls ss);
        later = t + 15 * 24 * 60 * 60 * 1000 + 1000
    in fst (loadSession later fs1 u) = None \<and>
       files (snd (loadSession later fs1 u)) u = None \<and>
       deleteSession (snd (loadSession later fs1 u)) u = snd (loadSession later fs1 u)"
    unfolding fs1_def later_def Let_def by blast
qed

text \<open>
  The claim as stated fails for a file that does not parse: the load returns null and the
  file is still in the store.
\<close>

theorem loadSession_unparsable_counterexample:
  "loadSession 1000 unparsable_dir ''owner'' = (None, unparsable_dir) \<and>
   files unparsable_dir ''owner'' = Some Unparsable"
  by (simp add: loadSession_def Let_def unparsable_dir_def ensureSessionDir_def)

text \<open>
  A session created at time 0, loaded at fifteen days and one second; and an unparsable
  file.
\<close>

theorem loadSession_fails_closed_witness:
  "files fresh_dir ''owner'' = Some (Parses (createSession 0 [] None None)) \<and>
   toNumber (expiresAt (createSession 0 [] None None)) = Some 1296000000 \<and>
   rat_of_int 1296001000 > 1296000000 \<and>
   fst (loadSession 1296001000 fresh_dir ''owner'') = None \<and>
   files (snd (loadSession 1296001000 fresh_dir ''owner'')) ''owner'' = None \<and>
   deleteSession (snd (loadSession 1296001000 fresh_dir ''owner'')) ''owner''
     = snd (loadSession 1296001000 fresh_dir ''owner'') \<and>
   files unparsable_dir ''owner'' = Some Unparsable \<and>
   fst (loadSession 1296001000 unparsable_dir ''owner'') = None"
proof -
  have a: "files fresh_dir ''owner'' = Some (Parses (createSession 0 [] None None))"
    by (simp add: fresh_dir_def files_save)
  have b: "toNumber (expiresAt (createSession 0 [] None None)) = Some 1296000000"
    by (simp add: createSession_def toNumber_def)
  have c: "files unparsable_dir ''owner'' = Some Unparsable"
    by (simp add: unparsable_dir_def)
  have d: "rat_of_int 1296001000 > 1296000000"
    by simp
  note t1 = loadSession_fails_closed[of 1296001000 fresh_dir "''owner''" 0 "[]" None None]
  note t2 = loadSession_fails_closed[of 1296001000 unparsable_dir "''owner''" 0 "[]" None None]
  have "fst (loadSession 1296001000 fresh_dir ''owner'') = None"
    and "files (snd (loadSession 1296001000 fresh_dir ''owner'')) ''owner'' = None"
    and "deleteSession (snd (loadSession 1296001000 fresh_dir ''owner'')) ''owner''
           = snd (loadSession 1296001000 fresh_dir ''owner'')"
    using t1 a b d by auto
  moreover have "fst (loadSession 1296001000 unparsable_dir ''owner'') = None"
    using t2 c by simp
  ultimately show ?thesis using a b c by simp
qed

text \<open>
  C6, as amended. \<^verbatim>\<open>uploadSession\<close> never throws, and whenever it returns false it
  leaves the store exactly as it was. It returns false for a payload that does not parse or
  holds no cookies array. For a payload whose \<^verbatim>\<open>expiresAt\<close> is a number it returns true
  exactly when the payload holds a cookies array and the expiry is at or after the current
  time, the current instant included; it then stores the payload for the owner.
\<close>

theorem uploadSession_accepts_iff:
  "(j = Unparsable \<or>
    (\<exists>s. j = Parses s \<and> (cookies s = CookiesAbsent \<or> cookies s = CookiesNotArray)) \<longrightarrow>
      \<not> fst (uploadSession now fs u j)) \<and>
   (\<forall>s e. j = Parses s \<and> expiresAt s = Some (JNum e) \<longrightarrow>
      (fst (uploadSession now fs u j) \<longleftrightarrow>
         (\<exists>cks. cookies s = CookiesArray cks) \<and> rat_of_int now \<le> e)) \<and>
   (fst (uploadSession now fs u j) \<longrightarrow>
      snd (uploadSession now fs u j) = (ensureSessionDir fs)\<lparr> files := (files fs)(u \<mapsto> j) \<rparr>) \<and>
   (\<not> fst (uploadSession now fs u j) \<longrightarrow> snd (uploadSession now fs u j) = fs)"
  by (auto simp: uploadSession_def now_gt_def toNumber_def saveSession_def Let_def
           split: json_text.splits cookies_field.splits option.splits)

text \<open>
  A fresh session is accepted and stored, and so is one that expires at the very instant of
  the upload; an expired payload, a payload without cookies and a text that does not parse
  are rejected and the owner's earlier session stays as it was.
\<close>

theorem uploadSession_accepts_iff_witness:
  "expiresAt (createSession 1000 [] None None) = Some (JNum 1296001000) \<and>
   fst (uploadSession 1000 empty_dir ''owner'' (Parses (createSession 1000 [] None None))) \<and>
   files (snd (uploadSession 1000 empty_dir ''owner'' (Parses (createSession 1000 [] None None))))
     ''owner'' = Some (Parses (createSession 1000 [] None None)) \<and>
   fst (uploadSession 1296001000 empty_dir ''owner''
          (Parses (createSession 1000 [] None None))) \<and>
   \<not> fst (uploadSession 2000 fresh_dir ''owner''
            (Parses ((createSession 0 [] None None)\<lparr> expiresAt := Some (JNum 1000) \<rparr>))) \<and>
   snd (uploadSession 2000 fresh_dir ''owner''
            (Parses ((createSession 0 [] None None)\<lparr> expiresAt := Some (JNum 1000) \<rparr>)))
     = fresh_dir \<and>
   \<not> fst (uploadSession 2000 fresh_dir ''owner''
            (Parses ((createSession 2000 [] None None)\<lparr> cookies := CookiesAbsent \<rparr>))) \<and>
   snd (uploadSession 2000 fresh_dir ''owner''
            (Parses ((createSession 2000 [] None None)\<lparr> cookies := CookiesAbsent \<rparr>)))
     = fresh_dir \<and>
   \<not> fst (uploadSession 2000 fresh_dir ''owner'' Unparsable) \<and>
   snd (uploadSession 2000 fresh_dir ''owner'' Unparsable) = fresh_dir"
proof -
  note acc = uploadSession_accepts_iff[of "Parses (createSession 1000 [] None None)"
      1000 empty_dir "''owner''"]
  note edge = uploadSession_accepts_iff[of "Parses (createSession 1000 [] None None)"
      1296001000 empty_dir "''owner''"]
  note exp = uploadSession_accepts_iff[of
      "Parses ((createSession 0 [] None None)\<lparr> expiresAt := Some (JNum 1000) \<rparr>)"
      2000 fresh_dir "''owner''"]
  note noc = uploadSession_accepts_iff[of
      "Parses ((createSession 2000 [] None None)\<lparr> cookies := CookiesAbsent \<rparr>)"
      2000 fresh_dir "''owner''"]
  note unp = uploadSession_accepts_iff[of Unparsable 2000 fresh_dir "''owner''"]
  have 0: "expiresAt (createSession 1000 [] None None) = Some (JNum 1296001000)"
    by (simp add: createSession_def)
  have 1: "fst (uploadSession 1000 empty_dir ''owner'' (Parses (createSession 1000 [] None None)))"
    using acc by (simp add: createSession_def)
  have 2: "fst (uploadSession 1296001000 empty_dir ''owner''
                  (Parses (createSession 1000 [] None None)))"
    using edge by (simp add: createSession_def)
  have 3: "\<not> fst (uploadSession 2000 fresh_dir ''owner''
            (Parses ((createSession 0 [] None None)\<lparr> expiresAt := Some (JNum 1000) \<rparr>)))"
    using exp by (simp add: createSession_def)
  have 4: "\<not> fst (uploadSession 2000 fresh_dir ''owner''
            (Parses ((createSession 2000 [] None None)\<lparr> cookies := CookiesAbsent \<rparr>)))"
    using noc by (simp add: createSession_def)
  have 5: "\<not> fst (uploadSession 2000 fresh_dir ''owner'' Unparsable)"
    using unp by simp
  show ?thesis
    using 0 1 2 3 4 5 acc exp noc unp by simp
qed

text \<open>
  The claim as stated fails for a payload whose expiry is the current instant: that expiry
  is not in the future, and the payload is accepted and stored.
\<close>

theorem uploadSession_expiry_now_counterexample:
  "expiresAt (payload_no_expiry\<lparr> expiresAt := Some (JNum 1000) \<rparr>) = Some (JNum 1000) \<and>
   uploadSession 1000 empty_dir ''owner''
       (Parses (payload_no_expiry\<lparr> expiresAt := Some (JNum 1000) \<rparr>))
     = (True, saveSession empty_dir ''owner''
                (payload_no_expiry\<lparr> expiresAt := Some (JNum 1000) \<rparr>))"
  by (simp add: uploadSession_def now_gt_def toNumber_def payload_no_expiry_def)

text \<open>
  An \<^verbatim>\<open>expiresAt\<close> that is present but not a number goes through JavaScript's numeric
  conversion: \<^verbatim>\<open>null\<close> counts as 0, so the payload is rejected at any positive time,
  and a string that is not a numeral gives NaN, so the payload is accepted.
\<close>

lemma uploadSession_expiresAt_converted:
  assumes "cookies s = CookiesArray cks"
  shows "0 < now \<Longrightarrow> expiresAt s = Some JNull \<Longrightarrow> uploadSession now fs u (Parses s) = (False, fs)"
    and "expiresAt s = Some (JOther None) \<Longrightarrow>
           uploadSession now fs u (Parses s) = (True, saveSession fs u s)"
  using assms by (simp_all add: uploadSession_def now_gt_def toNumber_def)

text \<open>
  The age test of \<^verbatim>\<open>isSessionNeedingVerification\<close> on a session that
  \<^verbatim>\<open>loadSession\<close> returns.
\<close>

lemma age_old:
  assumes "1296000000 \<le> rat_of_int now - t"
  shows "15 \<le> \<lfloor>fl (fl (rat_of_int now - t) / (24 * 60 * 60 * 1000))\<rfloor>"
proof -
  have "rat_of_int 1296000000 \<le> fl (rat_of_int now - t)"
    by (rule fl_ge_int) (use assms in simp_all)
  then have "rat_of_int 15 \<le> fl (rat_of_int now - t) / (24 * 60 * 60 * 1000)"
    by simp
  then have "rat_of_int 15 \<le> fl (fl (rat_of_int now - t) / (24 * 60 * 60 * 1000))"
    by (intro fl_ge_int) simp_all
  then show ?thesis
    by (simp only: le_floor_iff)
qed

lemma age_young:
  assumes "now - t0 < 1296000000"
  shows "\<lfloor>fl (fl (rat_of_int now - rat_of_int t0) / (24 * 60 * 60 * 1000))\<rfloor> < 15"
proof -
  define q where "q = fl (rat_of_int now - rat_of_int t0) / (24 * 60 * 60 * 1000)"
  have "now - t0 \<le> 1295999999"
    using assms by simp
  then have "rat_of_int (now - t0) \<le> rat_of_int 1295999999"
    by (simp only: of_int_le_iff)
  then have "rat_of_int now - rat_of_int t0 \<le> rat_of_int 1295999999"
    by simp
  then have "fl (rat_of_int now - rat_of_int t0) \<le> rat_of_int 1295999999"
    by (intro fl_le_int) simp_all
  then have q: "q \<le> 1295999999 / 86400000"
    by (simp add: q_def)
  have "fl q \<le> q + \<bar>q\<bar> / 2 ^ 53"
    using fl_error[of q] by linarith
  then have "fl q < 15"
    using q by (cases "0 \<le> q") simp_all
  then have "fl q < rat_of_int 15"
    by simp
  then have "\<lfloor>fl q\<rfloor> < 15"
    by (simp only: floor_less_iff)
  then show ?thesis
    by (simp add: q_def)
qed

text \<open>
  C7. \<^verbatim>\<open>isSessionNeedingVerification\<close> is true whenever \<^verbatim>\<open>loadSession\<close> returns
  null: the owner has no file, the file does not parse, or its \<^verbatim>\<open>expiresAt\<close> has
  passed. It is also true whenever the stored creation timestamp is at least fifteen days
  old, whatever \<^verbatim>\<open>expiresAt\<close> says. For a session just created with
  \<^verbatim>\<open>createSession\<close> and saved, it is false until fifteen days have passed. But for a
  stored session that is malformed in another way, one that parses and has no numeric
  \<^verbatim>\<open>timestamp\<close>, and whose \<^verbatim>\<open>expiresAt\<close> does not say it has expired, the answer is
  false at every time: the age is NaN and \<^verbatim>\<open>NaN >= 15\<close> is false. Uploading the text
  \<^verbatim>\<open>{"cookies":[]}\<close> stores such a session.
\<close>

theorem isSessionNeedingVerification_cases:
  "(fst (loadSession now fs u) = None \<longrightarrow> fst (isSessionNeedingVerification now fs u)) \<and>
   (files fs u = None \<longrightarrow> fst (isSessionNeedingVerification now fs u)) \<and>
   (files fs u = Some Unparsable \<longrightarrow> fst (isSessionNeedingVerification now fs u)) \<and>
   (\<forall>s e. files fs u = Some (Parses s) \<and> toNumber (expiresAt s) = Some e \<and>
          rat_of_int now > e \<longrightarrow>
      fst (isSessionNeedingVerification now fs u)) \<and>
   (\<forall>s t. files fs u = Some (Parses s) \<and> toNumber (timestamp s) = Some t \<and>
          rat_of_int now - t \<ge> 15 * 24 * 60 * 60 * 1000 \<longrightarrow>
      fst (isSessionNeedingVerification now fs u)) \<and>
   (now < t0 + 15 * 24 * 60 * 60 * 1000 \<longrightarrow>
      \<not> fst (isSessionNeedingVerification now
               (saveSession fs u (createSession t0 cks ls ss)) u)) \<and>
   (\<forall>s. files fs u = Some (Parses s) \<and> toNumber (timestamp s) = None \<and>
        \<not> now_gt now (expiresAt s) \<longrightarrow>
      \<not> fst (isSessionNeedingVerification now fs u)) \<and>
   (uploadSession now fs u (Parses payload_cookies_only)
      = (True, saveSession fs u payload_cookies_only) \<and>
    (\<forall>later. \<not> fst (isSessionNeedingVerification later
                       (saveSession fs u payload_cookies_only) u)))"
proof (intro conjI allI impI)
  show "fst (isSessionNeedingVerification now fs u)" if "fst (loadSession now fs u) = None"
    using that by (cases "loadSession now fs u") (simp add: isSessionNeedingVerification_def)
  show "fst (isSessionNeedingVerification now fs u)" if "files fs u = None"
    using that by (simp add: isSessionNeedingVerification_def loadSession_def Let_def)
  show "fst (isSessionNeedingVerification now fs u)" if "files fs u = Some Unparsable"
    using that by (simp add: isSessionNeedingVerification_def loadSession_def Let_def)
  show "fst (isSessionNeedingVerification now fs u)"
    if "files fs u = Some (Parses s) \<and> toNumber (expiresAt s) = Some e \<and> rat_of_int now > e"
    for s e
    using that by (simp add: isSessionNeedingVerification_def loadSession_def Let_def now_gt_def)
  show "fst (isSessionNeedingVerification now fs u)"
    if a: "files fs u = Some (Parses s) \<and> toNumber (timestamp s) = Some t \<and>
          rat_of_int now - t \<ge> 15 * 24 * 60 * 60 * 1000" for s t
  proof -
    have "15 \<le> \<lfloor>fl (fl (rat_of_int now - t) / (24 * 60 * 60 * 1000))\<rfloor>"
      by (rule age_old) (use a in simp)
    then show ?thesis
      using a by (simp add: isSessionNeedingVerification_def loadSession_def Let_def)
  qed
  show "\<not> fst (isSessionNeedingVerification now
               (saveSession fs u (createSession t0 cks ls ss)) u)"
    if a: "now < t0 + 15 * 24 * 60 * 60 * 1000"
  proof -
    have "\<lfloor>fl (fl (rat_of_int now - rat_of_int t0) / (24 * 60 * 60 * 1000))\<rfloor> < 15"
      by (rule age_young) (use a in simp)
    then show ?thesis
      using a by (simp add: isSessionNeedingVerification_def loadSession_def Let_def
          files_save createSession_def now_gt_def toNumber_def)
  qed
  show "\<not> fst (isSessionNeedingVerification now fs u)"
    if "files fs u = Some (Parses s) \<and> toNumber (timestamp s) = None \<and>
        \<not> now_gt now (expiresAt s)" for s
    using that by (simp add: isSessionNeedingVerification_def loadSession_def Let_def)
  show "uploadSession now fs u (Parses payload_cookies_only)
          = (True, saveSession fs u payload_cookies_only)"
    by (simp add: uploadSession_def now_gt_def toNumber_def payload_cookies_only_def)
  show "\<not> fst (isSessionNeedingVerification later (saveSession fs u payload_cookies_only) u)"
    for later
    by (simp add: isSessionNeedingVerification_def loadSession_def Let_def files_save
        now_gt_def toNumber_def payload_cookies_only_def)
qed

text \<open>
  An absent owner, an unparsable file, a session aged exactly fifteen days whose expiry is
  still ahead, a session checked at the instant of its creation and one millisecond before
  its fifteen days, and the session stored by uploading \<^verbatim>\<open>{"cookies":[]}\<close>, checked
  far beyond any fifteen days.
\<close>

theorem isSessionNeedingVerification_cases_witness:
  "files empty_dir ''owner'' = None \<and>
   fst (isSessionNeedingVerification 5000 empty_dir ''owner'') \<and>
   files unparsable_dir ''owner'' = Some Unparsable \<and>
   fst (isSessionNeedingVerification 5000 unparsable_dir ''owner'') \<and>
   fst (isSessionNeedingVerification 1296000000
          (saveSession empty_dir ''owner''
             ((createSession 0 [] None None)\<lparr> expiresAt := Some (JNum 2000000000) \<rparr>))
          ''owner'') \<and>
   \<not> fst (isSessionNeedingVerification 1000
            (saveSession empty_dir ''owner'' (createSession 1000 [] None None)) ''owner'') \<and>
   \<not> fst (isSessionNeedingVerification 1296000999
            (saveSession empty_dir ''owner'' (createSession 1000 [] None None)) ''owner'') \<and>
   uploadSession 1000 empty_dir ''owner'' (Parses payload_cookies_only)
     = (True, saveSession empty_dir ''owner'' payload_cookies_only) \<and>
   toNumber (timestamp payload_cookies_only) = None \<and>
   \<not> fst (isSessionNeedingVerification 99999999999999
            (saveSession empty_dir ''owner'' payload_cookies_only) ''owner'')"
proof -
  have a: "files empty_dir ''owner'' = None"
    by (simp add: empty_dir_def)
  have b: "files unparsable_dir ''owner'' = Some Unparsable"
    by (simp add: unparsable_dir_def)
  have "fst (isSessionNeedingVerification 5000 empty_dir ''owner'')"
    using isSessionNeedingVerification_cases[of 5000 empty_dir "''owner''"] a
    by simp
  moreover have "fst (isSessionNeedingVerification 5000 unparsable_dir ''owner'')"
    using isSessionNeedingVerification_cases[of 5000 unparsable_dir "''owner''"] b
    by simp
  moreover have "fst (isSessionNeedingVerification 1296000000
          (saveSession empty_dir ''owner''
             ((createSession 0 [] None None)\<lparr> expiresAt := Some (JNum 2000000000) \<rparr>))
          ''owner'')"
    using isSessionNeedingVerification_cases[of 1296000000
          "saveSession empty_dir ''owner''
             ((createSession 0 [] None None)\<lparr> expiresAt := Some (JNum 2000000000) \<rparr>)"
          "''owner''"]
    by (simp add: files_save createSession_def toNumber_def)
  moreover have "\<not> fst (isSessionNeedingVerification 1000
            (saveSession empty_dir ''owner'' (createSession 1000 [] None None)) ''owner'')"
    using isSessionNeedingVerification_cases[of 1000 _ _ 1000 "[]" None None]
    by simp
  moreover have "\<not> fst (isSessionNeedingVerification 1296000999
            (saveSession empty_dir ''owner'' (createSession 1000 [] None None)) ''owner'')"
    using isSessionNeedingVerification_cases[of 1296000999 _ _ 1000 "[]" None None]
    by simp
  moreover have "uploadSession 1000 empty_dir ''owner'' (Parses payload_cookies_only)
     = (True, saveSession empty_dir ''owner'' payload_cookies_only)"
    and "\<not> fst (isSessionNeedingVerification 99999999999999
            (saveSession empty_dir ''owner'' payload_cookies_only) ''owner'')"
    using isSessionNeedingVerification_cases[of 1000 empty_dir "''owner''"]
    by simp_all
  moreover have "toNumber (timestamp payload_cookies_only) = None"
    by (simp add: payload_cookies_only_def toNumber_def)
  ultimately show ?thesis using a b by simp
qed

lemma ensure_save [simp]: "ensureSessionDir (saveSession fs u s) = saveSession fs u s"
  by (simp add: saveSession_def Let_def ensureSessionDir_def)

text \<open>
  C10. A payload with a cookies array and no \<^verbatim>\<open>expiresAt\<close> passes the temporal check
  of \<^verbatim>\<open>uploadSession\<close>, is stored, and \<^verbatim>\<open>uploadSession\<close> returns true; every later
  \<^verbatim>\<open>loadSession\<close>, at whatever time, returns that session and leaves it stored.
\<close>

theorem uploadSession_without_expiresAt:
  assumes "cookies s = CookiesArray cks" and "expiresAt s = None"
  shows "\<not> now_gt now (expiresAt s) \<and>
         uploadSession now fs u (Parses s) = (True, saveSession fs u s) \<and>
         files (saveSession fs u s) u = Some (Parses s) \<and>
         (\<forall>later. loadSession later (saveSession fs u s) u = (Some s, saveSession fs u s))"
  using assms
  by (simp add: now_gt_def toNumber_def uploadSession_def files_save loadSession_def Let_def)

text \<open>
  The payload without expiry is uploaded at time 1000 and still loaded at a time far beyond
  any fifteen days.
\<close>

theorem uploadSession_without_expiresAt_witness:
  "cookies payload_no_expiry =
     CookiesArray [\<lparr> c_name = ''sid'', c_value = ''abc'', c_domain = ''example.com'',
                     c_path = ''/'' \<rparr>] \<and>
   expiresAt payload_no_expiry = None \<and>
   uploadSession 1000 empty_dir ''owner'' (Parses payload_no_expiry)
     = (True, saveSession empty_dir ''owner'' payload_no_expiry) \<and>
   loadSession 99999999999999 (saveSession empty_dir ''owner'' payload_no_expiry) ''owner''
     = (Some payload_no_expiry, saveSession empty_dir ''owner'' payload_no_expiry)"
proof -
  have a: "cookies payload_no_expiry =
     CookiesArray [\<lparr> c_name = ''sid'', c_value = ''abc'', c_domain = ''example.com'',
                     c_path = ''/'' \<rparr>]"
    and b: "expiresAt payload_no_expiry = None"
    by (simp_all add: payload_no_expiry_def)
  show ?thesis
    using uploadSession_without_expiresAt[OF a b, of 1000 empty_dir "''owner''"] a b
    by simp
qed

section \<open>Sync monitor\<close>

lemma window_step:
  fixes w r :: "'a list" and d :: 'a
  assumes "length w \<le> 100"
  defines "p \<equiv> w @ [d]"
  defines "w' \<equiv> (if length p > 100 then tl p else p)"
  shows "length w' \<le> 100"
    and "drop (length (w' @ r) - 100) (w' @ r) = drop (length (p @ r) - 100) (p @ r)"
proof -
  show "length w' \<le> 100"
    using assms by (auto simp: w'_def p_def)
  show "drop (length (w' @ r) - 100) (w' @ r) = drop (length (p @ r) - 100) (p @ r)"
  proof (cases "length p > 100")
    case False
    then show ?thesis by (simp add: w'_def)
  next
    case True
    then have lp: "length p = 101" using assms by (simp add: p_def)
    then have ne: "p \<noteq> []" by auto
    have ltp: "length (tl p) = 100" using lp by simp
    have l: "length (tl p @ r) - 100 = length r"
      using ltp by simp
    have "length (p @ r) - 100 = Suc (length r)"
      using lp by simp
    then have "drop (length (p @ r) - 100) (p @ r) = drop (Suc (length r)) (p @ r)"
      by (simp only:)
    also have "\<dots> = drop (length r) (tl (p @ r))"
      by (rule drop_Suc)
    also have "tl (p @ r) = tl p @ r"
      using ne by (rule tl_append2)
    finally have "drop (length (p @ r) - 100) (p @ r) = drop (length r) (tl p @ r)" .
    moreover have "w' = tl p" using True by (simp add: w'_def)
    ultimately show ?thesis by (simp only: l)
  qed
qed

lemma cycleDurations_endCycle:
  "cycleDurations (endCycle now m cs su it) =
     (if length (cycleDurations m @ [now - cs]) > 100
      then tl (cycleDurations m @ [now - cs]) else cycleDurations m @ [now - cs])"
  by (simp add: endCycle_def Let_def)

lemma endCycles_window:
  "length (cycleDurations m) \<le> 100 \<Longrightarrow>
   length (cycleDurations (endCycles m calls)) \<le> 100 \<and>
   cycleDurations (endCycles m calls) =
     drop (length (cycleDurations m @ map duration_of calls) - 100)
          (cycleDurations m @ map duration_of calls)"
proof (induction calls arbitrary: m)
  case Nil
  then show ?case by simp
next
  case (Cons c calls)
  obtain now cs su it where c: "c = (now, cs, su, it)"
    by (cases c) auto
  let ?m' = "endCycle now m cs su it"
  let ?R = "map duration_of calls"
  let ?p = "cycleDurations m @ [now - cs]"
  note ws1 = window_step(1)[OF Cons.prems, where d = "now - cs"]
  note ws2 = window_step(2)[OF Cons.prems, where d = "now - cs" and r = ?R]
  have W': "cycleDurations ?m' = (if length ?p > 100 then tl ?p else ?p)"
    by (rule cycleDurations_endCycle)
  have len': "length (cycleDurations ?m') \<le> 100"
    using ws1 by (simp only: W')
  have e1: "endCycles m (c # calls) = endCycles ?m' calls"
    by (simp add: c)
  have e2: "cycleDurations m @ map duration_of (c # calls) = ?p @ ?R"
    by (simp add: c duration_of_def)
  from Cons.IH[OF len']
  have ih1: "length (cycleDurations (endCycles ?m' calls)) \<le> 100"
    and ih2: "cycleDurations (endCycles ?m' calls) =
                drop (length (cycleDurations ?m' @ ?R) - 100) (cycleDurations ?m' @ ?R)"
    by blast+
  have "cycleDurations (endCycles ?m' calls) = drop (length (?p @ ?R) - 100) (?p @ ?R)"
    using ih2 ws2 by (simp only: W')
  then show ?case
    using ih1 by (simp only: e1 e2 simp_thms)
qed

lemma endCycle_counts:
  "totalCycles (stats (endCycle now m cs su it)) = Suc (totalCycles (stats m))"
  "successfulCycles (stats (endCycle now m cs su it)) =
     (if su then Suc (successfulCycles (stats m)) else successfulCycles (stats m))"
  "failedCycles (stats (endCycle now m cs su it)) =
     (if su then failedCycles (stats m) else Suc (failedCycles (stats m)))"
  by (simp_all add: endCycle_def Let_def)

lemma endCycles_counts:
  "totalCycles (stats (endCycles m calls)) = totalCycles (stats m) + length calls \<and>
   successfulCycles (stats (endCycles m calls)) =
     successfulCycles (stats m) + length (filter succeeded_of calls) \<and>
   failedCycles (stats (endCycles m calls)) =
     failedCycles (stats m) + length (filter (\<lambda>c. \<not> succeeded_of c) calls)"
proof (induction calls arbitrary: m)
  case Nil
  then show ?case by simp
next
  case (Cons c calls)
  obtain now cs su it where c: "c = (now, cs, su, it)"
    by (cases c) auto
  show ?case
    using Cons.IH[of "endCycle now m cs su it"]
    by (simp add: c endCycle_counts succeeded_of_def)
qed

lemma endCycles_average:
  "calls \<noteq> [] \<Longrightarrow>
   averageCycleDuration (stats (endCycles m calls)) =
     fl (of_int (sum_list (cycleDurations (endCycles m calls)))
           / of_nat (length (cycleDurations (endCycles m calls))))"
proof (induction calls arbitrary: m)
  case Nil
  then show ?case by simp
next
  case (Cons c calls)
  obtain now cs su it where c: "c = (now, cs, su, it)"
    by (cases c) auto
  show ?case
  proof (cases "calls = []")
    case True
    then show ?thesis by (simp add: c endCycle_def Let_def)
  next
    case False
    then show ?thesis using Cons.IH by (simp add: c)
  qed
qed

lemma toFixed2_nearest:
  assumes "0 \<le> x"
  shows "\<exists>n. toFixed2 x = show_nat (n div 100) @ ''.'' @ [digit (n mod 100 div 10), digit (n mod 10)]
             \<and> \<bar>rat_of_nat n - x * 100\<bar> \<le> 1 / 2"
proof -
  let ?k = "js_round (\<bar>x\<bar> * 100)"
  have x: "\<bar>x\<bar> = x" using assms by simp
  have k0: "0 \<le> ?k" using assms by (simp add: js_round_def)
  have lo: "of_int ?k \<le> x * 100 + 1 / 2" and hi: "x * 100 + 1 / 2 < of_int ?k + 1"
    unfolding js_round_def x by linarith+
  have "of_nat (nat ?k) = (of_int ?k :: rat)" using k0 by simp
  then have "\<bar>of_nat (nat ?k) - x * 100\<bar> \<le> 1 / 2"
    using lo hi by linarith
  moreover have "toFixed2 x = show_nat (nat ?k div 100) @ ''.'' @
                   [digit (nat ?k mod 100 div 10), digit (nat ?k mod 10)]"
    using assms by (simp add: toFixed2_def Let_def)
  ultimately show ?thesis by blast
qed

text \<open>
  The percentage as the code computes it, a quotient and a product in doubles, is within
  \<open>201 / 2 ^ 53\<close> of the exact percentage.
\<close>

lemma rate_double:
  fixes s t :: nat
  assumes "s \<le> t" and "0 < t"
  defines "r \<equiv> rat_of_nat s / rat_of_nat t"
  shows "0 \<le> fl (fl r * 100)" and "\<bar>fl (fl r * 100) - r * 100\<bar> \<le> 201 / 2 ^ 53"
proof -
  have "rat_of_nat s \<le> rat_of_nat t" "(0::rat) < of_nat t"
    using assms by simp_all
  then have r: "0 \<le> r" "r \<le> 1"
    by (simp_all add: r_def)
  define u where "u = r / 2 ^ 53"
  have u: "u \<le> r" "u \<le> 1 / 2 ^ 53"
    using r by (simp_all add: u_def field_simps)
  have e1: "\<bar>fl r - r\<bar> \<le> u"
    using fl_error[of r] r by (simp add: u_def)
  then have f: "0 \<le> fl r" "fl r \<le> r + u"
    using u by linarith+
  define p where "p = fl r * 100"
  have "u \<le> 1 / 100"
    using u(2) by simp
  then have p: "0 \<le> p" "p \<le> 101"
    using f r unfolding p_def by linarith+
  define v where "v = p / 2 ^ 53"
  have v: "v \<le> p" "v \<le> 101 / 2 ^ 53"
    using p by (simp_all add: v_def field_simps)
  have e2: "\<bar>fl p - p\<bar> \<le> v"
    using fl_error[of p] p by (simp add: v_def)
  show "0 \<le> fl (fl r * 100)"
    using e2 v unfolding p_def[symmetric] by linarith
  have "\<bar>fl p - r * 100\<bar> \<le> v + 100 * u"
    using e1 e2 unfolding p_def by linarith
  also have "\<dots> \<le> 101 / 2 ^ 53 + 100 * (1 / 2 ^ 53)"
    using u v by (intro add_mono) simp_all
  finally show "\<bar>fl (fl r * 100) - r * 100\<bar> \<le> 201 / 2 ^ 53"
    by (simp add: p_def)
qed

text \<open>
  C9. After any sequence of \<^verbatim>\<open>endCycle\<close> calls on a fresh or reset monitor, the window
  of durations holds the durations of the last 100 calls at most, in order, and the counters
  hold the number of calls and of successful calls. \<^verbatim>\<open>getFormattedStats\<close> reports
  \<^verbatim>\<open>"0%"\<close> when no cycle has ended; otherwise it reports the percentage
  \<open>100 * successful / total\<close>, computed in doubles and printed with two decimals: a
  decimal number within 0.005, and the rounding of the two double operations, of that
  percentage. After at least one call the average duration is the double for the sum of the
  window over its length, and it is what the formatted average prints, in seconds.
\<close>

theorem endCycles_formatted:
  "length (cycleDurations (endCycles (reset t) calls)) \<le> 100 \<and>
   cycleDurations (endCycles (reset t) calls)
     = drop (length calls - 100) (map duration_of calls) \<and>
   totalCycles (stats (endCycles (reset t) calls)) = length calls \<and>
   successfulCycles (stats (endCycles (reset t) calls)) = length (filter succeeded_of calls) \<and>
   (calls = [] \<longrightarrow> f_successRate (getFormattedStats (endCycles (reset t) calls)) = ''0%'') \<and>
   (calls \<noteq> [] \<longrightarrow>
      f_successRate (getFormattedStats (endCycles (reset t) calls))
        = toFixed2 (fl (fl (of_nat (length (filter succeeded_of calls)) / of_nat (length calls))
                          * 100))
            @ ''%'' \<and>
      (\<exists>n. f_successRate (getFormattedStats (endCycles (reset t) calls))
              = show_nat (n div 100) @ ''.'' @ [digit (n mod 100 div 10), digit (n mod 10)] @ ''%'' \<and>
            \<bar>rat_of_nat n / 100 -
               rat_of_nat (length (filter succeeded_of calls)) / rat_of_nat (length calls) * 100\<bar>
              \<le> 1 / 200 + 201 / 2 ^ 53) \<and>
      averageCycleDuration (stats (endCycles (reset t) calls))
        = fl (of_int (sum_list (drop (length calls - 100) (map duration_of calls)))
                / of_nat (min 100 (length calls))) \<and>
      f_averageCycleDuration (getFormattedStats (endCycles (reset t) calls))
        = toFixed2 (fl (fl (of_int (sum_list (drop (length calls - 100) (map duration_of calls)))
                              / of_nat (min 100 (length calls))) / 1000)) @ ''s'')"
proof -
  let ?m = "endCycles (reset t) calls"
  have r: "length (cycleDurations (reset t)) \<le> 100" "cycleDurations (reset t) = []"
    "totalCycles (stats (reset t)) = 0" "successfulCycles (stats (reset t)) = 0"
    by (simp_all add: reset_def)
  have w: "length (cycleDurations ?m) \<le> 100"
    "cycleDurations ?m = drop (length calls - 100) (map duration_of calls)"
    using endCycles_window[OF r(1), of calls] by (simp_all add: r(2))
  have cnt: "totalCycles (stats ?m) = length calls"
    "successfulCycles (stats ?m) = length (filter succeeded_of calls)"
    using endCycles_counts[of "reset t" calls] by (simp_all add: r)
  have zero: "f_successRate (getFormattedStats ?m) = ''0%''" if "calls = []"
    using that by (simp add: getFormattedStats_def Let_def reset_def)
  have rate: "f_successRate (getFormattedStats ?m)
        = toFixed2 (fl (fl (of_nat (length (filter succeeded_of calls)) / of_nat (length calls))
                          * 100)) @ ''%''"
    if "calls \<noteq> []"
    using that by (simp add: getFormattedStats_def Let_def cnt)
  have near: "\<exists>n. f_successRate (getFormattedStats ?m)
              = show_nat (n div 100) @ ''.'' @ [digit (n mod 100 div 10), digit (n mod 10)] @ ''%'' \<and>
            \<bar>rat_of_nat n / 100 -
               rat_of_nat (length (filter succeeded_of calls)) / rat_of_nat (length calls) * 100\<bar>
              \<le> 1 / 200 + 201 / 2 ^ 53"
    if ne: "calls \<noteq> []"
  proof -
    let ?r = "rat_of_nat (length (filter succeeded_of calls)) / rat_of_nat (length calls)"
    let ?x = "fl (fl ?r * 100)"
    have le: "length (filter succeeded_of calls) \<le> length calls"
      by (rule length_filter_le)
    have pos: "0 < length calls"
      using ne by simp
    have x0: "0 \<le> ?x" and xe: "\<bar>?x - ?r * 100\<bar> \<le> 201 / 2 ^ 53"
      using rate_double[OF le pos] by blast+
    from toFixed2_nearest[OF x0] obtain n where
      n: "toFixed2 ?x = show_nat (n div 100) @ ''.'' @ [digit (n mod 100 div 10), digit (n mod 10)]"
      and d: "\<bar>of_nat n - ?x * 100\<bar> \<le> 1 / 2"
      by blast
    have "of_nat n / 100 - ?x = (of_nat n - ?x * 100) / 100"
      by (simp add: diff_divide_distrib)
    then have "\<bar>of_nat n / 100 - ?x\<bar> = \<bar>(of_nat n - ?x * 100) / 100\<bar>"
      by (simp only:)
    also have "\<dots> = \<bar>of_nat n - ?x * 100\<bar> / 100"
      by (simp only: abs_divide abs_numeral)
    finally have "\<bar>of_nat n / 100 - ?x\<bar> = \<bar>of_nat n - ?x * 100\<bar> / 100" .
    then have "\<bar>of_nat n / 100 - ?x\<bar> \<le> 1 / 200"
      using d by simp
    then have bound: "\<bar>of_nat n / 100 - ?r * 100\<bar> \<le> 1 / 200 + 201 / 2 ^ 53"
      using xe by linarith
    have "f_successRate (getFormattedStats ?m)
            = (show_nat (n div 100) @ ''.'' @ [digit (n mod 100 div 10), digit (n mod 10)]) @ ''%''"
      using rate[OF ne] by (simp only: n)
    then have "f_successRate (getFormattedStats ?m)
            = show_nat (n div 100) @ ''.'' @ [digit (n mod 100 div 10), digit (n mod 10)] @ ''%''"
      by (simp only: append_assoc)
    with bound show ?thesis
      by (intro exI[of _ n] conjI)
  qed
  have avg: "averageCycleDuration (stats ?m)
        = fl (of_int (sum_list (drop (length calls - 100) (map duration_of calls)))
                / of_nat (min 100 (length calls)))"
    if "calls \<noteq> []"
  proof -
    have "length (drop (length calls - 100) (map duration_of calls)) = min 100 (length calls)"
      by simp
    then show ?thesis
      using endCycles_average[OF that, of "reset t"] by (simp only: w(2))
  qed
  have favg: "f_averageCycleDuration (getFormattedStats ?m)
        = toFixed2 (fl (fl (of_int (sum_list (drop (length calls - 100) (map duration_of calls)))
                              / of_nat (min 100 (length calls))) / 1000)) @ ''s''"
    if "calls \<noteq> []"
    using avg[OF that] by (simp add: getFormattedStats_def Let_def)
  show ?thesis
    apply (intro conjI impI)
            apply (rule w(1))
           apply (rule w(2))
          apply (rule cnt(1))
         apply (rule cnt(2))
        apply (erule zero)
       apply (erule rate)
      apply (erule near)
     apply (erule avg)
    apply (erule favg)
    done
qed

text \<open>
  Four cycles of which three succeed give \<^verbatim>\<open>"75.00%"\<close>; no cycle gives
  \<^verbatim>\<open>"0%"\<close>; after 150 cycles, fifty of 7 ms followed by a hundred of 100 ms, the
  window holds the hundred last durations only and the average prints as 0.10 s. Two cases
  where the doubles decide the last digit: a single cycle of 15 ms prints as 0.01 s, because
  the double for 0.015 lies below 0.015, and 3 successes in 4000 cycles print as
  \<^verbatim>\<open>"0.07%"\<close>, because the double for the percentage lies below 0.075.
\<close>

theorem endCycles_formatted_witness:
  "four_cycles \<noteq> [] \<and>
   f_successRate (getFormattedStats (endCycles (reset 0) four_cycles)) = ''75.00%'' \<and>
   f_successRate (getFormattedStats (endCycles (reset 0) [])) = ''0%'' \<and>
   many_cycles \<noteq> [] \<and>
   totalCycles (stats (endCycles (reset 0) many_cycles)) = 150 \<and>
   cycleDurations (endCycles (reset 0) many_cycles) = replicate 100 100 \<and>
   f_averageCycleDuration (getFormattedStats (endCycles (reset 0) many_cycles)) = ''0.10s'' \<and>
   one_cycle \<noteq> [] \<and>
   f_averageCycleDuration (getFormattedStats (endCycles (reset 0) one_cycle)) = ''0.01s'' \<and>
   rare_success \<noteq> [] \<and>
   f_successRate (getFormattedStats (endCycles (reset 0) rare_success)) = ''0.07%''"
proof -
  have ne: "four_cycles \<noteq> []" "many_cycles \<noteq> []" "one_cycle \<noteq> []" "rare_success \<noteq> []"
    by (simp_all add: four_cycles_def many_cycles_def one_cycle_def rare_success_def)
  have l4: "length four_cycles = 4" "length (filter succeeded_of four_cycles) = 3"
    by (simp_all add: four_cycles_def succeeded_of_def)
  have "js_round (\<bar>fl (fl (3 / 4) * 100)\<bar> * 100) = 7500" "\<not> fl (fl (3 / 4) * 100) < 0"
    by code_simp+
  then have f: "toFixed2 (fl (fl (rat_of_nat 3 / rat_of_nat 4) * 100)) = ''75.00''"
    by (simp add: toFixed2_def Let_def show_nat.simps digit_def)
  have lr: "length rare_success = 4000" "length (filter succeeded_of rare_success) = 3"
    by (simp_all add: rare_success_def succeeded_of_def)
  have "js_round (\<bar>fl (fl (3 / 4000) * 100)\<bar> * 100) = 7" "\<not> fl (fl (3 / 4000) * 100) < 0"
    by code_simp+
  then have fr: "toFixed2 (fl (fl (rat_of_nat 3 / rat_of_nat 4000) * 100)) = ''0.07''"
    by (simp add: toFixed2_def Let_def show_nat.simps digit_def)
  have lm: "length many_cycles = 150"
    by (simp add: many_cycles_def)
  have dm: "drop (150 - 100) (map duration_of many_cycles) = replicate 100 100"
    by (simp add: many_cycles_def duration_of_def)
  have sm: "sum_list (replicate 100 (100::int)) = 10000"
    by (simp add: sum_list_replicate)
  have "js_round (\<bar>fl (fl (10000 / 100) / 1000)\<bar> * 100) = 10" "\<not> fl (fl (10000 / 100) / 1000) < 0"
    by code_simp+
  then have av: "toFixed2 (fl (fl (rat_of_int 10000 / rat_of_nat (min 100 150)) / 1000)) = ''0.10''"
    by (simp add: toFixed2_def Let_def show_nat.simps digit_def)
  have l1: "length one_cycle = 1"
    by (simp add: one_cycle_def)
  have d1: "drop (1 - 100) (map duration_of one_cycle) = [15]"
    by (simp add: one_cycle_def duration_of_def)
  have "js_round (\<bar>fl (fl (15 / 1) / 1000)\<bar> * 100) = 1" "\<not> fl (fl (15 / 1) / 1000) < 0"
    by code_simp+
  then have a1: "toFixed2 (fl (fl (rat_of_int (sum_list [15]) / rat_of_nat (min 100 1)) / 1000))
                   = ''0.01''"
    by (simp add: toFixed2_def Let_def show_nat.simps digit_def)
  note t4 = endCycles_formatted[of 0 four_cycles]
  note t0 = endCycles_formatted[of 0 "[]"]
  note tm = endCycles_formatted[of 0 many_cycles]
  note t1 = endCycles_formatted[of 0 one_cycle]
  note tr = endCycles_formatted[of 0 rare_success]
  have "f_successRate (getFormattedStats (endCycles (reset 0) four_cycles))
          = toFixed2 (fl (fl (rat_of_nat (length (filter succeeded_of four_cycles))
                        / rat_of_nat (length four_cycles)) * 100)) @ ''%''"
    using t4 ne(1) by blast
  then have "f_successRate (getFormattedStats (endCycles (reset 0) four_cycles))
          = ''75.00'' @ ''%''"
    by (simp only: l4 f)
  then have r4: "f_successRate (getFormattedStats (endCycles (reset 0) four_cycles)) = ''75.00%''"
    by simp
  have "f_successRate (getFormattedStats (endCycles (reset 0) rare_success))
          = toFixed2 (fl (fl (rat_of_nat (length (filter succeeded_of rare_success))
                        / rat_of_nat (length rare_success)) * 100)) @ ''%''"
    using tr ne(4) by blast
  then have "f_successRate (getFormattedStats (endCycles (reset 0) rare_success))
          = ''0.07'' @ ''%''"
    by (simp only: lr fr)
  then have rr: "f_successRate (getFormattedStats (endCycles (reset 0) rare_success)) = ''0.07%''"
    by simp
  have r0: "f_successRate (getFormattedStats (endCycles (reset 0) [])) = ''0%''"
    using t0 by blast
  have "totalCycles (stats (endCycles (reset 0) many_cycles)) = length many_cycles"
    using tm by blast
  then have tc: "totalCycles (stats (endCycles (reset 0) many_cycles)) = 150"
    by (simp only: lm)
  have "cycleDurations (endCycles (reset 0) many_cycles)
          = drop (length many_cycles - 100) (map duration_of many_cycles)"
    using tm by blast
  then have w: "cycleDurations (endCycles (reset 0) many_cycles) = replicate 100 100"
    by (simp only: lm dm)
  have "f_averageCycleDuration (getFormattedStats (endCycles (reset 0) many_cycles))
          = toFixed2 (fl (fl (rat_of_int (sum_list (drop (length many_cycles - 100)
                                               (map duration_of many_cycles)))
                        / rat_of_nat (min 100 (length many_cycles))) / 1000)) @ ''s''"
    using tm ne(2) by blast
  then have "f_averageCycleDuration (getFormattedStats (endCycles (reset 0) many_cycles))
          = ''0.10'' @ ''s''"
    by (simp only: lm dm sm av)
  then have fa: "f_averageCycleDuration (getFormattedStats (endCycles (reset 0) many_cycles))
          = ''0.10s''"
    by simp
  have "f_averageCycleDuration (getFormattedStats (endCycles (reset 0) one_cycle))
          = toFixed2 (fl (fl (rat_of_int (sum_list (drop (length one_cycle - 100)
                                               (map duration_of one_cycle)))
                        / rat_of_nat (min 100 (length one_cycle))) / 1000)) @ ''s''"
    using t1 ne(3) by blast
  then have "f_averageCycleDuration (getFormattedStats (endCycles (reset 0) one_cycle))
          = ''0.01'' @ ''s''"
    by (simp only: l1 d1 a1)
  then have f1: "f_averageCycleDuration (getFormattedStats (endCycles (reset 0) one_cycle))
          = ''0.01s''"
    by simp
  show ?thesis
    using ne r4 r0 tc w fa f1 rr by (intro conjI)
qed

section \<open>Scheduler\<close>

lemma sync_cell_counts:
  "rs_successCount (sync_cell env h d st) = rs_successCount st + (if cell_ok env h d then 1 else 0)"
  "rs_errorCount (sync_cell env h d st) = rs_errorCount st + (if cell_ok env h d then 0 else 1)"
  by (auto simp: sync_cell_def cell_ok_def Let_def savePriceHistory_def
           split: sum.splits option.splits)

lemma sync_cell_tables:
  "webbedCredentials (rs_db (sync_cell env h d st)) = webbedCredentials (rs_db st)"
  "syncLogs (rs_db (sync_cell env h d st)) = syncLogs (rs_db st)"
  "syncLogs_autoinc (rs_db (sync_cell env h d st)) = syncLogs_autoinc (rs_db st)"
  "length (priceHistory (rs_db (sync_cell env h d st)))
     = length (priceHistory (rs_db st)) + (if cell_ok env h d then 1 else 0)"
  by (auto simp: sync_cell_def cell_ok_def Let_def savePriceHistory_def
           split: sum.splits option.splits)

lemma fold_dates:
  "rs_successCount (fold (sync_cell env h) ds st)
     = rs_successCount st + length (filter (cell_ok env h) ds) \<and>
   rs_errorCount (fold (sync_cell env h) ds st)
     = rs_errorCount st + length (filter (\<lambda>d. \<not> cell_ok env h d) ds) \<and>
   webbedCredentials (rs_db (fold (sync_cell env h) ds st)) = webbedCredentials (rs_db st) \<and>
   syncLogs (rs_db (fold (sync_cell env h) ds st)) = syncLogs (rs_db st) \<and>
   syncLogs_autoinc (rs_db (fold (sync_cell env h) ds st)) = syncLogs_autoinc (rs_db st) \<and>
   length (priceHistory (rs_db (fold (sync_cell env h) ds st)))
     = length (priceHistory (rs_db st)) + length (filter (cell_ok env h) ds)"
  by (induction ds arbitrary: st) (simp_all add: sync_cell_counts sync_cell_tables)

lemma grid_all:
  "rs_successCount (sync_grid env hs ds st)
     = rs_successCount st + length (filter (\<lambda>(h, d). cell_ok env h d) (List.product hs ds)) \<and>
   rs_errorCount (sync_grid env hs ds st)
     = rs_errorCount st + length (filter (\<lambda>(h, d). \<not> cell_ok env h d) (List.product hs ds)) \<and>
   webbedCredentials (rs_db (sync_grid env hs ds st)) = webbedCredentials (rs_db st) \<and>
   syncLogs (rs_db (sync_grid env hs ds st)) = syncLogs (rs_db st) \<and>
   syncLogs_autoinc (rs_db (sync_grid env hs ds st)) = syncLogs_autoinc (rs_db st) \<and>
   length (priceHistory (rs_db (sync_grid env hs ds st)))
     = length (priceHistory (rs_db st))
         + length (filter (\<lambda>(h, d). cell_ok env h d) (List.product hs ds))"
proof (induction hs arbitrary: st)
  case Nil
  then show ?case by (simp add: sync_grid_def)
next
  case (Cons h hs)
  have step: "sync_grid env (h # hs) ds st = sync_grid env hs ds (fold (sync_cell env h) ds st)"
    by (simp add: sync_grid_def)
  show ?case
    unfolding step
    using Cons.IH[of "fold (sync_cell env h) ds st"] fold_dates[of env h ds st]
    by (simp add: comp_def)
qed

lemma grid_total:
  "length (filter (\<lambda>(h, d). cell_ok env h d) (List.product hs ds))
     + length (filter (\<lambda>(h, d). \<not> cell_ok env h d) (List.product hs ds))
   = length hs * length ds"
proof -
  have "length (filter P xs) + length (filter (\<lambda>x. \<not> P x) xs) = length xs" for P and xs :: "'a list"
    by (induction xs) auto
  from this[of "\<lambda>(h, d). cell_ok env h d" "List.product hs ds"] show ?thesis
    by (simp add: case_prod_unfold)
qed


lemma tracked_sizes: "length HOTELS_TO_TRACK = 14" "length DATES_TO_TRACK = 20"
  by (simp_all add: HOTELS_TO_TRACK_def DATES_TO_TRACK_def)

lemma cells_total: "ok_cells env + failed_cells env = 280"
  unfolding ok_cells_def failed_cells_def grid_total tracked_sizes by simp

lemma update_new_log:
  assumes "logs_keyed db"
  shows "map (\<lambda>l. if sl_id l = syncLogs_autoinc db then g l else l)
             (syncLogs db @ [new\<lparr> sl_id := syncLogs_autoinc db \<rparr>])
           = syncLogs db @ [g (new\<lparr> sl_id := syncLogs_autoinc db \<rparr>)]"
proof -
  from assms have old: "\<forall>l \<in> set (syncLogs db). sl_id l < syncLogs_autoinc db"
    by (simp add: logs_keyed_def list_all_iff)
  have "map (\<lambda>l. if sl_id l = syncLogs_autoinc db then g l else l) (syncLogs db) = syncLogs db"
    using old by (intro map_idI) auto
  then show ?thesis by simp
qed

lemma insert_syncLog_eq:
  "insert_syncLog env userId db =
     (syncLogs_autoinc db,
      db\<lparr> syncLogs := syncLogs db @
               [\<lparr> sl_id = syncLogs_autoinc db, sl_userId = userId, sl_status = Running,
                  sl_totalHotels = 14, sl_totalDates = 20, sl_successCount = 0,
                  sl_errorCount = 0, sl_errorMessage = None, sl_startedAt = env_startedAt env,
                  sl_completedAt = None, sl_duration = None \<rparr>],
           syncLogs_autoinc := Suc (syncLogs_autoinc db) \<rparr>)"
  by (simp add: insert_syncLog_def Let_def tracked_sizes)

lemma sync_complete_fields:
  "fst (sync_complete env userId syncLogId st) =
     \<lparr> success = True, totalHotels = 14, totalDates = 20,
       successCount = rs_successCount st, errorCount = rs_errorCount st, errorMessage = None \<rparr>"
  "syncLogs (snd (sync_complete env userId syncLogId st)) =
     map (\<lambda>l. if sl_id l = syncLogId
               then l\<lparr> sl_status := Completed,
                       sl_successCount := rs_successCount st,
                       sl_errorCount := rs_errorCount st,
                       sl_completedAt := Some (env_completedAt env),
                       sl_duration :=
                         Some (js_round (fl (of_int (env_endTime env - env_startTime env) / 1000))) \<rparr>
               else l) (syncLogs (rs_db st))"
  "webbedCredentials (snd (sync_complete env userId syncLogId st)) =
     map (\<lambda>c. if wc_userId c = userId
               then c\<lparr> wc_syncStatus := StatusSuccess,
                       wc_lastSyncAt := Some (env_lastSyncAt env),
                       wc_syncError := None \<rparr>
               else c) (webbedCredentials (rs_db st))"
  "priceHistory (snd (sync_complete env userId syncLogId st)) = priceHistory (rs_db st)"
  by (simp_all add: sync_complete_def Let_def tracked_sizes)

lemma runSync_grid_path:
  assumes "syncLogs_autoinc db \<noteq> 0"
    and "filter (\<lambda>c. wc_userId c = userId) (webbedCredentials db) = cred # rest"
    and "env_decryptData env (wc_password cred) = Inr password"
    and "env_initialize env = None"
    and "env_login env (wc_username cred) password = Inr True"
    and "env_close env = None"
  shows "runSync env (Some db) userId =
           map_prod id Some
             (sync_complete env userId (syncLogs_autoinc db)
                (sync_grid env HOTELS_TO_TRACK DATES_TO_TRACK
                   \<lparr> rs_db = snd (insert_syncLog env userId db),
                     rs_successCount = 0, rs_errorCount = 0 \<rparr>))"
  using assms by (simp add: runSync_def Let_def insert_syncLog_def)

text \<open>
  C4. Take a run for a user with stored credentials in which decryption, \<^verbatim>\<open>initialize\<close>,
  \<^verbatim>\<open>login\<close> and \<^verbatim>\<open>close\<close> succeed, so that failures can occur inside cells only,
  on a sync-log table that obeys its primary key. Whatever happens in the cells, the run
  returns success; its success count is the number of cells that were saved and its error
  count the number of the others, 280 in all for 14 hotels and 20 dates. The sync log of
  the run ends with status completed, carrying both counts, the completion time and the
  duration; the user's credentials get status success, the sync time and a null error; and
  the price history has grown by one row for each counted success.
\<close>

theorem runSync_completed:
  assumes "logs_keyed db"
    and "filter (\<lambda>c. wc_userId c = userId) (webbedCredentials db) = cred # rest"
    and "env_decryptData env (wc_password cred) = Inr password"
    and "env_initialize env = None"
    and "env_login env (wc_username cred) password = Inr True"
    and "env_close env = None"
  shows "\<exists>db'. runSync env (Some db) userId =
            (\<lparr> success = True, totalHotels = 14, totalDates = 20,
               successCount = ok_cells env, errorCount = failed_cells env,
               errorMessage = None \<rparr>, Some db') \<and>
          ok_cells env + failed_cells env = 280 \<and>
          syncLogs db' = syncLogs db @
            [\<lparr> sl_id = syncLogs_autoinc db, sl_userId = userId, sl_status = Completed,
               sl_totalHotels = 14, sl_totalDates = 20,
               sl_successCount = ok_cells env, sl_errorCount = failed_cells env,
               sl_errorMessage = None, sl_startedAt = env_startedAt env,
               sl_completedAt = Some (env_completedAt env),
               sl_duration =
                 Some (js_round (fl (of_int (env_endTime env - env_startTime env) / 1000))) \<rparr>] \<and>
          webbedCredentials db' =
            map (\<lambda>c. if wc_userId c = userId
                      then c\<lparr> wc_syncStatus := StatusSuccess,
                              wc_lastSyncAt := Some (env_lastSyncAt env),
                              wc_syncError := None \<rparr>
                      else c) (webbedCredentials db) \<and>
          length (priceHistory db') = length (priceHistory db) + ok_cells env"
proof -
  from assms(1) have pos: "syncLogs_autoinc db \<noteq> 0"
    by (simp add: logs_keyed_def)
  let ?new = "\<lparr> sl_id = syncLogs_autoinc db, sl_userId = userId, sl_status = Running,
                 sl_totalHotels = 14, sl_totalDates = 20, sl_successCount = 0,
                 sl_errorCount = 0, sl_errorMessage = None, sl_startedAt = env_startedAt env,
                 sl_completedAt = None, sl_duration = None \<rparr>"
  define st0 where "st0 = \<lparr> rs_db = snd (insert_syncLog env userId db),
                            rs_successCount = 0, rs_errorCount = 0 \<rparr>"
  define st1 where "st1 = sync_grid env HOTELS_TO_TRACK DATES_TO_TRACK st0"
  define out where "out = sync_complete env userId (syncLogs_autoinc db) st1"
  have st0: "rs_successCount st0 = 0" "rs_errorCount st0 = 0"
    "webbedCredentials (rs_db st0) = webbedCredentials db"
    "syncLogs (rs_db st0) = syncLogs db @ [?new]"
    "priceHistory (rs_db st0) = priceHistory db"
    by (simp_all add: st0_def insert_syncLog_eq)
  note g = grid_all[of env HOTELS_TO_TRACK DATES_TO_TRACK st0,
      folded st1_def ok_cells_def failed_cells_def]
  have s: "rs_successCount st1 = ok_cells env" and e: "rs_errorCount st1 = failed_cells env"
    and wc: "webbedCredentials (rs_db st1) = webbedCredentials db"
    and sl: "syncLogs (rs_db st1) = syncLogs db @ [?new]"
    and ph: "length (priceHistory (rs_db st1)) = length (priceHistory db) + ok_cells env"
    using g by (simp_all add: st0)
  have "runSync env (Some db) userId = map_prod id Some out"
    unfolding out_def st1_def st0_def by (rule runSync_grid_path[OF pos assms(2-6)])
  then have run: "runSync env (Some db) userId = (fst out, Some (snd out))"
    by (simp add: map_prod_def case_prod_unfold)
  have res: "fst out = \<lparr> success = True, totalHotels = 14, totalDates = 20,
               successCount = ok_cells env, errorCount = failed_cells env,
               errorMessage = None \<rparr>"
    unfolding out_def sync_complete_fields s e by (rule refl)
  let ?g = "\<lambda>l. l\<lparr> sl_status := Completed, sl_successCount := ok_cells env,
                     sl_errorCount := failed_cells env,
                     sl_completedAt := Some (env_completedAt env),
                     sl_duration :=
                       Some (js_round (fl (of_int (env_endTime env - env_startTime env) / 1000))) \<rparr>"
  have "syncLogs (snd out) = map (\<lambda>l. if sl_id l = syncLogs_autoinc db then ?g l else l)
                                 (syncLogs db @ [?new])"
    unfolding out_def sync_complete_fields s e sl by (rule refl)
  also have "\<dots> = syncLogs db @ [?g ?new]"
    using update_new_log[OF assms(1), of ?g ?new] by simp
  finally have logs: "syncLogs (snd out) = syncLogs db @
            [\<lparr> sl_id = syncLogs_autoinc db, sl_userId = userId, sl_status = Completed,
               sl_totalHotels = 14, sl_totalDates = 20,
               sl_successCount = ok_cells env, sl_errorCount = failed_cells env,
               sl_errorMessage = None, sl_startedAt = env_startedAt env,
               sl_completedAt = Some (env_completedAt env),
               sl_duration =
                 Some (js_round (fl (of_int (env_endTime env - env_startTime env) / 1000))) \<rparr>]"
    by simp
  have creds: "webbedCredentials (snd out) =
            map (\<lambda>c. if wc_userId c = userId
                      then c\<lparr> wc_syncStatus := StatusSuccess,
                              wc_lastSyncAt := Some (env_lastSyncAt env),
                              wc_syncError := None \<rparr>
                      else c) (webbedCredentials db)"
    unfolding out_def sync_complete_fields wc by (rule refl)
  have hist: "length (priceHistory (snd out)) = length (priceHistory db) + ok_cells env"
    unfolding out_def sync_complete_fields ph by (rule refl)
  show ?thesis
  proof (intro exI[of _ "snd out"] conjI)
    show "runSync env (Some db) userId =
            (\<lparr> success = True, totalHotels = 14, totalDates = 20,
               successCount = ok_cells env, errorCount = failed_cells env,
               errorMessage = None \<rparr>, Some (snd out))"
      using run res by simp
  qed (rule cells_total logs creds hist)+
qed


lemma cell_ok_five_failures:
  "cell_ok env_five_failures h d \<longleftrightarrow>
     \<not> (h_id h = ''voco'' \<and> (d = (16, 2, 2026) \<or> d = (17, 2, 2026)) \<or>
        h_id h = ''razanah'' \<and> d = (1, 3, 2026) \<or>
        h_id h = ''ibis-makkah'' \<and> d = (28, 2, 2026) \<or>
        h_id h = ''elaf-ajyad'' \<and> d = (7, 3, 2026))"
  by (simp add: cell_ok_def env_five_failures_def env_all_ok_def Let_def)

lemma product_filter_length:
  "length (filter (\<lambda>(h, d). P h d) (List.product hs ds))
     = sum_list (map (\<lambda>h. length (filter (P h) ds)) hs)"
  by (induction hs) (simp_all add: filter_map comp_def)

lemma five_failures_count: "ok_cells env_five_failures = 275"
proof -
  have "ok_cells env_five_failures
          = sum_list (map (\<lambda>h. length (filter (cell_ok env_five_failures h) DATES_TO_TRACK))
                          HOTELS_TO_TRACK)"
    unfolding ok_cells_def by (rule product_filter_length)
  also have "\<dots> = 275"
    unfolding cell_ok_five_failures
    apply (simp add: HOTELS_TO_TRACK_def)
    apply (simp add: DATES_TO_TRACK_def)
    done
  finally show ?thesis .
qed


text \<open>
  Fourteen hotels and twenty dates with five failing cells (two searches without result, one
  search that throws, one hotel lookup that throws, one save without database): the run is
  completed with 275 successes and 5 errors.
\<close>

theorem runSync_completed_witness:
  "logs_keyed sync_db0 \<and>
   filter (\<lambda>c. wc_userId c = 7) (webbedCredentials sync_db0) = webbedCredentials sync_db0 \<and>
   env_initialize env_five_failures = None \<and>
   env_login env_five_failures ''agent'' ''secret'' = Inr True \<and>
   env_close env_five_failures = None \<and>
   (\<exists>db'. runSync env_five_failures (Some sync_db0) 7 =
            (\<lparr> success = True, totalHotels = 14, totalDates = 20,
               successCount = 275, errorCount = 5, errorMessage = None \<rparr>, Some db') \<and>
          syncLogs db' =
            [\<lparr> sl_id = 1, sl_userId = 7, sl_status = Completed,
               sl_totalHotels = 14, sl_totalDates = 20,
               sl_successCount = 275, sl_errorCount = 5,
               sl_errorMessage = None, sl_startedAt = 1001,
               sl_completedAt = Some 61401, sl_duration = Some 60 \<rparr>] \<and>
          webbedCredentials db' =
            [\<lparr> wc_userId = 7, wc_username = ''agent'', wc_password = ''U2FsdGVk'',
               wc_lastSyncAt = Some 61402, wc_syncStatus = StatusSuccess,
               wc_syncError = None \<rparr>] \<and>
          length (priceHistory db') = 275)"
proof -
  let ?cred = "\<lparr> wc_userId = 7, wc_username = ''agent'', wc_password = ''U2FsdGVk'',
                  wc_lastSyncAt = None, wc_syncStatus = Idle, wc_syncError = None \<rparr>"
  have k: "logs_keyed sync_db0"
    by (simp add: logs_keyed_def sync_db0_def empty_db_def)
  have c: "filter (\<lambda>c. wc_userId c = 7) (webbedCredentials sync_db0) = ?cred # []"
    by (simp add: sync_db0_def empty_db_def)
  have d: "env_decryptData env_five_failures (wc_password ?cred) = Inr ''secret''"
    and i: "env_initialize env_five_failures = None"
    and l: "env_login env_five_failures (wc_username ?cred) ''secret'' = Inr True"
    and cl: "env_close env_five_failures = None"
    by (simp_all add: env_five_failures_def env_all_ok_def)
  have ok: "ok_cells env_five_failures = 275"
    by (rule five_failures_count)
  have bad: "failed_cells env_five_failures = 5"
    using cells_total[of env_five_failures] ok by simp
  have dur: "js_round (fl (rat_of_int (61400 - 1000) / 1000)) = 60"
    by code_simp
  have times: "env_startedAt env_five_failures = 1001" "env_completedAt env_five_failures = 61401"
    "env_lastSyncAt env_five_failures = 61402" "env_endTime env_five_failures = 61400"
    "env_startTime env_five_failures = 1000"
    by (simp_all add: env_five_failures_def env_all_ok_def)
  have db0: "syncLogs sync_db0 = []" "syncLogs_autoinc sync_db0 = 1"
    "webbedCredentials sync_db0 = [?cred]" "priceHistory sync_db0 = []"
    by (simp_all add: sync_db0_def empty_db_def)
  from runSync_completed[OF k c d i l cl]
  have "\<exists>db'. runSync env_five_failures (Some sync_db0) 7 =
            (\<lparr> success = True, totalHotels = 14, totalDates = 20,
               successCount = 275, errorCount = 5, errorMessage = None \<rparr>, Some db') \<and>
          syncLogs db' =
            [\<lparr> sl_id = 1, sl_userId = 7, sl_status = Completed,
               sl_totalHotels = 14, sl_totalDates = 20,
               sl_successCount = 275, sl_errorCount = 5,
               sl_errorMessage = None, sl_startedAt = 1001,
               sl_completedAt = Some 61401, sl_duration = Some 60 \<rparr>] \<and>
          webbedCredentials db' =
            [\<lparr> wc_userId = 7, wc_username = ''agent'', wc_password = ''U2FsdGVk'',
               wc_lastSyncAt = Some 61402, wc_syncStatus = StatusSuccess,
               wc_syncError = None \<rparr>] \<and>
          length (priceHistory db') = 275"
    unfolding ok bad times dur db0 by simp
  then show ?thesis
    using k c i l cl by (simp add: db0)
qed

lemma sync_catch_fields:
  "fst (sync_catch e userId st) =
     \<lparr> success = False, totalHotels = 14, totalDates = 20,
       successCount = rs_successCount st, errorCount = rs_errorCount st,
       errorMessage = Some (error_message e) \<rparr>"
  "syncLogs (snd (sync_catch e userId st)) = syncLogs (rs_db st)"
  "priceHistory (snd (sync_catch e userId st)) = priceHistory (rs_db st)"
  "webbedCredentials (snd (sync_catch e userId st)) =
     map (\<lambda>c. if wc_userId c = userId
               then c\<lparr> wc_syncStatus := StatusError, wc_syncError := Some (error_message e) \<rparr>
               else c) (webbedCredentials (rs_db st))"
  by (simp_all add: sync_catch_def Let_def tracked_sizes)

lemma runSync_login_path:
  assumes "filter (\<lambda>c. wc_userId c = userId) (webbedCredentials db) = cred # rest"
    and "env_decryptData env (wc_password cred) = Inr password"
    and "env_initialize env = None"
    and "env_login env (wc_username cred) password = Inr False \<or>
         (\<exists>e. env_login env (wc_username cred) password = Inl e)"
  shows "runSync env (Some db) userId =
           map_prod id Some
             (sync_catch
                (case env_login env (wc_username cred) password of
                   Inl e \<Rightarrow> e | Inr b \<Rightarrow> Error ''Login failed'')
                userId
                \<lparr> rs_db = snd (insert_syncLog env userId db),
                  rs_successCount = 0, rs_errorCount = 0 \<rparr>)"
  using assms by (auto simp: runSync_def Let_def insert_syncLog_def)

text \<open>
  C2, the code at a failed login. When \<^verbatim>\<open>login\<close> returns false or throws, the run
  returns failure with both counts zero and a message (\<^verbatim>\<open>Login failed\<close>, or the
  message of what was thrown); the price history is unchanged, so no cell was written; the
  user's credentials get status error and the message. The sync log inserted at the start
  of the run is left as it was inserted: its status is still running and its error message
  is null. It is not marked failed.
\<close>

theorem runSync_login_failure:
  assumes "filter (\<lambda>c. wc_userId c = userId) (webbedCredentials db) = cred # rest"
    and "env_decryptData env (wc_password cred) = Inr password"
    and "env_initialize env = None"
    and "env_login env (wc_username cred) password = Inr False \<or>
         (\<exists>e. env_login env (wc_username cred) password = Inl e)"
  shows "\<exists>db' msg. runSync env (Some db) userId =
            (\<lparr> success = False, totalHotels = 14, totalDates = 20,
               successCount = 0, errorCount = 0, errorMessage = Some msg \<rparr>, Some db') \<and>
          msg = (case env_login env (wc_username cred) password of
                   Inl e \<Rightarrow> error_message e | Inr b \<Rightarrow> ''Login failed'') \<and>
          priceHistory db' = priceHistory db \<and>
          webbedCredentials db' =
            map (\<lambda>c. if wc_userId c = userId
                      then c\<lparr> wc_syncStatus := StatusError, wc_syncError := Some msg \<rparr>
                      else c) (webbedCredentials db) \<and>
          syncLogs db' = syncLogs db @
            [\<lparr> sl_id = syncLogs_autoinc db, sl_userId = userId, sl_status = Running,
               sl_totalHotels = 14, sl_totalDates = 20,
               sl_successCount = 0, sl_errorCount = 0,
               sl_errorMessage = None, sl_startedAt = env_startedAt env,
               sl_completedAt = None, sl_duration = None \<rparr>]"
proof -
  define e where "e = (case env_login env (wc_username cred) password of
                         Inl e \<Rightarrow> e | Inr b \<Rightarrow> Error ''Login failed'')"
  define st0 where "st0 = \<lparr> rs_db = snd (insert_syncLog env userId db),
                            rs_successCount = 0, rs_errorCount = 0 \<rparr>"
  define out where "out = sync_catch e userId st0"
  have msg: "error_message e = (case env_login env (wc_username cred) password of
                   Inl e \<Rightarrow> error_message e | Inr b \<Rightarrow> ''Login failed'')"
    by (simp add: e_def error_message_def split: sum.splits)
  have st0: "rs_successCount st0 = 0" "rs_errorCount st0 = 0"
    "webbedCredentials (rs_db st0) = webbedCredentials db"
    "priceHistory (rs_db st0) = priceHistory db"
    "syncLogs (rs_db st0) = syncLogs db @
            [\<lparr> sl_id = syncLogs_autoinc db, sl_userId = userId, sl_status = Running,
               sl_totalHotels = 14, sl_totalDates = 20,
               sl_successCount = 0, sl_errorCount = 0,
               sl_errorMessage = None, sl_startedAt = env_startedAt env,
               sl_completedAt = None, sl_duration = None \<rparr>]"
    by (simp_all add: st0_def insert_syncLog_eq)
  have "runSync env (Some db) userId = map_prod id Some out"
    unfolding out_def st0_def e_def by (rule runSync_login_path[OF assms])
  then have run: "runSync env (Some db) userId = (fst out, Some (snd out))"
    by (simp add: map_prod_def case_prod_unfold)
  show ?thesis
  proof (intro exI[of _ "snd out"] exI[of _ "error_message e"] conjI)
    show "runSync env (Some db) userId =
            (\<lparr> success = False, totalHotels = 14, totalDates = 20,
               successCount = 0, errorCount = 0, errorMessage = Some (error_message e) \<rparr>,
             Some (snd out))"
      unfolding run out_def sync_catch_fields st0 by (rule refl)
    show "error_message e = (case env_login env (wc_username cred) password of
                   Inl e \<Rightarrow> error_message e | Inr b \<Rightarrow> ''Login failed'')"
      by (rule msg)
    show "priceHistory (snd out) = priceHistory db"
      unfolding out_def sync_catch_fields st0 by (rule refl)
    show "webbedCredentials (snd out) =
            map (\<lambda>c. if wc_userId c = userId
                      then c\<lparr> wc_syncStatus := StatusError,
                              wc_syncError := Some (error_message e) \<rparr>
                      else c) (webbedCredentials db)"
      unfolding out_def sync_catch_fields st0 by (rule refl)
    show "syncLogs (snd out) = syncLogs db @
            [\<lparr> sl_id = syncLogs_autoinc db, sl_userId = userId, sl_status = Running,
               sl_totalHotels = 14, sl_totalDates = 20,
               sl_successCount = 0, sl_errorCount = 0,
               sl_errorMessage = None, sl_startedAt = env_startedAt env,
               sl_completedAt = None, sl_duration = None \<rparr>]"
      unfolding out_def sync_catch_fields st0 by (rule refl)
  qed
qed

text \<open>
  A user whose login is refused: the result carries \<^verbatim>\<open>Login failed\<close>, the credentials
  show the error, and the only sync log is still running.
\<close>

theorem runSync_login_failure_witness:
  "filter (\<lambda>c. wc_userId c = 7) (webbedCredentials sync_db0) = webbedCredentials sync_db0 \<and>
   env_initialize env_login_fails = None \<and>
   env_login env_login_fails ''agent'' ''secret'' = Inr False \<and>
   (\<exists>db'. runSync env_login_fails (Some sync_db0) 7 =
            (\<lparr> success = False, totalHotels = 14, totalDates = 20,
               successCount = 0, errorCount = 0, errorMessage = Some ''Login failed'' \<rparr>,
             Some db') \<and>
          priceHistory db' = [] \<and>
          webbedCredentials db' =
            [\<lparr> wc_userId = 7, wc_username = ''agent'', wc_password = ''U2FsdGVk'',
               wc_lastSyncAt = None, wc_syncStatus = StatusError,
               wc_syncError = Some ''Login failed'' \<rparr>] \<and>
          syncLogs db' =
            [\<lparr> sl_id = 1, sl_userId = 7, sl_status = Running,
               sl_totalHotels = 14, sl_totalDates = 20,
               sl_successCount = 0, sl_errorCount = 0,
               sl_errorMessage = None, sl_startedAt = 1001,
               sl_completedAt = None, sl_duration = None \<rparr>])"
proof -
  let ?cred = "\<lparr> wc_userId = 7, wc_username = ''agent'', wc_password = ''U2FsdGVk'',
                  wc_lastSyncAt = None, wc_syncStatus = Idle, wc_syncError = None \<rparr>"
  have c: "filter (\<lambda>c. wc_userId c = 7) (webbedCredentials sync_db0) = ?cred # []"
    by (simp add: sync_db0_def empty_db_def)
  have d: "env_decryptData env_login_fails (wc_password ?cred) = Inr ''secret''"
    and i: "env_initialize env_login_fails = None"
    and l: "env_login env_login_fails (wc_username ?cred) ''secret'' = Inr False"
    and t: "env_startedAt env_login_fails = 1001"
    by (simp_all add: env_login_fails_def env_all_ok_def)
  have db0: "syncLogs sync_db0 = []" "syncLogs_autoinc sync_db0 = 1"
    "webbedCredentials sync_db0 = [?cred]" "priceHistory sync_db0 = []"
    by (simp_all add: sync_db0_def empty_db_def)
  from runSync_login_failure[OF c d i disjI1[OF l]]
  have "\<exists>db'. runSync env_login_fails (Some sync_db0) 7 =
            (\<lparr> success = False, totalHotels = 14, totalDates = 20,
               successCount = 0, errorCount = 0, errorMessage = Some ''Login failed'' \<rparr>,
             Some db') \<and>
          priceHistory db' = [] \<and>
          webbedCredentials db' =
            [\<lparr> wc_userId = 7, wc_username = ''agent'', wc_password = ''U2FsdGVk'',
               wc_lastSyncAt = None, wc_syncStatus = StatusError,
               wc_syncError = Some ''Login failed'' \<rparr>] \<and>
          syncLogs db' =
            [\<lparr> sl_id = 1, sl_userId = 7, sl_status = Running,
               sl_totalHotels = 14, sl_totalDates = 20,
               sl_successCount = 0, sl_errorCount = 0,
               sl_errorMessage = None, sl_startedAt = 1001,
               sl_completedAt = None, sl_duration = None \<rparr>]"
    unfolding l t db0 by auto
  then show ?thesis
    using c i l by (simp add: db0)
qed


lemma grid_counts_sum:
  "rs_successCount (sync_grid env hs ds st) + rs_errorCount (sync_grid env hs ds st)
     = rs_successCount st + rs_errorCount st + length hs * length ds"
  using grid_all[of env hs ds st] grid_total[of env hs ds] by simp

text \<open>
  C3, as amended. A cell is saved exactly when the hotel lookup returns, the search returns
  a result that is not null, and the save finds the database. A saved cell appends one row
  to the price history and increments the success count alone; when the result is the
  no-match result (null price, not available) the row has null prices and availability 0.
  Every other cell, be it a null search result or an exception thrown by any step, leaves
  the database as it was and increments the error count alone. The loop goes on to the next
  cell in each case: after the grid, the two counts have grown together by the number of
  cells.
\<close>

theorem sync_cell_outcome:
  "(cell_ok env h d \<longleftrightarrow>
      (\<exists>hotelId result.
         ev_getOrCreateHotel (env_cell env h d (next_day d)) = Inr hotelId \<and>
         ev_searchHotelPrice (env_cell env h d (next_day d)) = Inr (Some result) \<and>
         ev_getDb (env_cell env h d (next_day d)))) \<and>
   (\<forall>hotelId result.
      ev_getOrCreateHotel (env_cell env h d (next_day d)) = Inr hotelId \<and>
      ev_searchHotelPrice (env_cell env h d (next_day d)) = Inr (Some result) \<and>
      ev_getDb (env_cell env h d (next_day d)) \<longrightarrow>
      sync_cell env h d st =
        st\<lparr> rs_db := (rs_db st)\<lparr> priceHistory := priceHistory (rs_db st) @
                         [priceData hotelId (formatDateToISO d) (sr_price result)
                            (sr_available result)] \<rparr>,
            rs_successCount := Suc (rs_successCount st) \<rparr> \<and>
      (sr_price result = None \<and> \<not> sr_available result \<longrightarrow>
         priceData hotelId (formatDateToISO d) (sr_price result) (sr_available result) =
           \<lparr> ph_hotelId = hotelId, ph_date = formatDateToISO d, ph_displayPrice = None,
             ph_actualPrice = None, ph_currency = ''SAR'', ph_available = 0 \<rparr>)) \<and>
   (\<not> cell_ok env h d \<longrightarrow>
      sync_cell env h d st = st\<lparr> rs_errorCount := Suc (rs_errorCount st) \<rparr>) \<and>
   rs_successCount (sync_grid env hs ds st) + rs_errorCount (sync_grid env hs ds st)
     = rs_successCount st + rs_errorCount st + length hs * length ds"
proof (intro conjI allI impI)
  show "cell_ok env h d \<longleftrightarrow>
      (\<exists>hotelId result.
         ev_getOrCreateHotel (env_cell env h d (next_day d)) = Inr hotelId \<and>
         ev_searchHotelPrice (env_cell env h d (next_day d)) = Inr (Some result) \<and>
         ev_getDb (env_cell env h d (next_day d)))"
    by (auto simp: cell_ok_def Let_def split: sum.splits option.splits)
next
  fix hotelId result
  assume a: "ev_getOrCreateHotel (env_cell env h d (next_day d)) = Inr hotelId \<and>
      ev_searchHotelPrice (env_cell env h d (next_day d)) = Inr (Some result) \<and>
      ev_getDb (env_cell env h d (next_day d))"
  then show "sync_cell env h d st =
        st\<lparr> rs_db := (rs_db st)\<lparr> priceHistory := priceHistory (rs_db st) @
                         [priceData hotelId (formatDateToISO d) (sr_price result)
                            (sr_available result)] \<rparr>,
            rs_successCount := Suc (rs_successCount st) \<rparr>"
    by (simp add: sync_cell_def Let_def savePriceHistory_def)
  show "priceData hotelId (formatDateToISO d) (sr_price result) (sr_available result) =
           \<lparr> ph_hotelId = hotelId, ph_date = formatDateToISO d, ph_displayPrice = None,
             ph_actualPrice = None, ph_currency = ''SAR'', ph_available = 0 \<rparr>"
    if "sr_price result = None \<and> \<not> sr_available result"
    using that by (simp add: priceData_def Let_def)
next
  assume "\<not> cell_ok env h d"
  then show "sync_cell env h d st = st\<lparr> rs_errorCount := Suc (rs_errorCount st) \<rparr>"
    by (auto simp: sync_cell_def cell_ok_def Let_def savePriceHistory_def
             split: sum.splits option.splits)
next
  show "rs_successCount (sync_grid env hs ds st) + rs_errorCount (sync_grid env hs ds st)
     = rs_successCount st + rs_errorCount st + length hs * length ds"
    by (rule grid_counts_sum)
qed

text \<open>
  A cell whose search throws is counted as an error and writes nothing; a cell whose search
  finds no match is counted as a success and writes an unavailable row.
\<close>

theorem sync_cell_outcome_witness:
  "\<not> cell_ok env_five_failures \<lparr> h_name = ''Razanah'', h_id = ''razanah'' \<rparr> (1, 3, 2026) \<and>
   sync_cell env_five_failures \<lparr> h_name = ''Razanah'', h_id = ''razanah'' \<rparr> (1, 3, 2026)
       \<lparr> rs_db = empty_db, rs_successCount = 3, rs_errorCount = 1 \<rparr>
     = \<lparr> rs_db = empty_db, rs_successCount = 3, rs_errorCount = 2 \<rparr> \<and>
   cell_ok env_five_failures \<lparr> h_name = ''Snaff in'', h_id = ''snaff-in'' \<rparr> (1, 3, 2026) \<and>
   sync_cell env_five_failures \<lparr> h_name = ''Snaff in'', h_id = ''snaff-in'' \<rparr> (1, 3, 2026)
       \<lparr> rs_db = empty_db, rs_successCount = 3, rs_errorCount = 1 \<rparr>
     = \<lparr> rs_db = empty_db\<lparr> priceHistory :=
                   [\<lparr> ph_hotelId = 1, ph_date = (2026, 3, 1), ph_displayPrice = None,
                      ph_actualPrice = None, ph_currency = ''SAR'', ph_available = 0 \<rparr>] \<rparr>,
         rs_successCount = 4, rs_errorCount = 1 \<rparr>"
proof -
  let ?st = "\<lparr> rs_db = empty_db, rs_successCount = 3, rs_errorCount = 1 \<rparr>"
  let ?r = "\<lparr> h_name = ''Razanah'', h_id = ''razanah'' \<rparr>"
  let ?s = "\<lparr> h_name = ''Snaff in'', h_id = ''snaff-in'' \<rparr>"
  have bad: "\<not> cell_ok env_five_failures ?r (1, 3, 2026)"
    by (simp add: cell_ok_five_failures)
  have good: "cell_ok env_five_failures ?s (1, 3, 2026)"
    by (simp add: cell_ok_five_failures)
  have ev: "ev_getOrCreateHotel (env_cell env_five_failures ?s (1, 3, 2026) (next_day (1, 3, 2026)))
              = Inr 1 \<and>
            ev_searchHotelPrice (env_cell env_five_failures ?s (1, 3, 2026) (next_day (1, 3, 2026)))
              = Inr (Some \<lparr> sr_price = None, sr_available = False \<rparr>) \<and>
            ev_getDb (env_cell env_five_failures ?s (1, 3, 2026) (next_day (1, 3, 2026)))"
    by (simp add: env_five_failures_def env_all_ok_def)
  note t1 = sync_cell_outcome[of env_five_failures ?r "(1, 3, 2026)" ?st "[]" "[]"]
  note t2 = sync_cell_outcome[of env_five_failures ?s "(1, 3, 2026)" ?st "[]" "[]"]
  have 1: "sync_cell env_five_failures ?r (1, 3, 2026) ?st
             = \<lparr> rs_db = empty_db, rs_successCount = 3, rs_errorCount = 2 \<rparr>"
    using t1 bad by simp
  have 2: "sync_cell env_five_failures ?s (1, 3, 2026) ?st
     = \<lparr> rs_db = empty_db\<lparr> priceHistory :=
                   [\<lparr> ph_hotelId = 1, ph_date = (2026, 3, 1), ph_displayPrice = None,
                      ph_actualPrice = None, ph_currency = ''SAR'', ph_available = 0 \<rparr>] \<rparr>,
         rs_successCount = 4, rs_errorCount = 1 \<rparr>"
    using t2 ev by (simp add: formatDateToISO_def empty_db_def)
  show ?thesis
    using bad good 1 2 by (intro conjI)
qed

text \<open>
  The claim as stated fails for a cell whose search returns null: the error count is
  incremented and no row is persisted.
\<close>

theorem sync_cell_none_counterexample:
  "sync_cell env_search_none \<lparr> h_name = ''VOCO'', h_id = ''voco'' \<rparr> (16, 2, 2026)
       \<lparr> rs_db = empty_db, rs_successCount = 0, rs_errorCount = 0 \<rparr>
     = \<lparr> rs_db = empty_db, rs_successCount = 0, rs_errorCount = 1 \<rparr> \<and>
   priceHistory empty_db = []"
  by (simp add: sync_cell_def Let_def env_search_none_def env_all_ok_def empty_db_def)

end
